theory Spec2Isabelle
  imports Complex_Main "HOL-Library.Multiset"
begin

section \<open>Python values shared by the whole script\<close>

text \<open>
  The script \<^verbatim>\<open>lstm_baseline.py\<close> is embedded function by function. Python's unbounded
  integers are modelled by \<open>int\<close>, and counters that only ever count upwards from zero by
  \<open>nat\<close>. The losses and accuracies of the training loop are modelled by the reals (exact
  arithmetic); the baseline accuracy, which the script computes in single precision, is
  modelled with its rounding. Every exception the modelled code can raise is a value of
  \<open>py_error\<close> (\<open>OSError\<close> stands for the operating system's errors that have no class of
  their own, such as a file name that is too long); a function that may raise returns
  \<open>py_error + 'a\<close>.
\<close>

datatype py_error =
    ZeroDivisionError
  | ValueError
  | TypeError
  | IndexError
  | RuntimeError
  | FileExistsError
  | FileNotFoundError
  | NotADirectoryError
  | IsADirectoryError
  | OSError

text \<open>
  A Python slice \<^verbatim>\<open>xs[lo:hi]\<close> with integer bounds: a negative bound counts from the end,
  and every bound is clipped to the list.
\<close>

definition slice_bound :: "nat \<Rightarrow> int \<Rightarrow> nat" where
  "slice_bound n i = (if i < 0 then nat (max 0 (int n + i)) else min n (nat i))"

definition py_slice :: "'a list \<Rightarrow> int \<Rightarrow> int \<Rightarrow> 'a list" where
  "py_slice xs lo hi =
     take (slice_bound (length xs) hi - slice_bound (length xs) lo)
          (drop (slice_bound (length xs) lo) xs)"

text \<open>
  Indexing \<^verbatim>\<open>xs[i]\<close> with a Python integer: a negative index counts from the end, and an
  index outside the list raises \<^verbatim>\<open>IndexError\<close>.
\<close>

definition py_index :: "'a list \<Rightarrow> int \<Rightarrow> py_error + 'a" where
  "py_index xs i =
     (if 0 \<le> i \<and> i < int (length xs) then Inr (xs ! nat i)
      else if i < 0 \<and> - int (length xs) \<le> i then Inr (xs ! nat (int (length xs) + i))
      else Inl IndexError)"

text \<open>\<^verbatim>\<open>enumerate(xs)\<close>: the elements paired with their positions, counted from zero.\<close>

definition enumerate_py :: "'a list \<Rightarrow> (nat \<times> 'a) list" where
  "enumerate_py xs = zip [0..<length xs] xs"

text \<open>
  A \<^verbatim>\<open>for\<close> loop whose body may raise: the body is run on the elements in order, on the
  state the previous round left, and the first exception ends the loop.
\<close>

fun for_each :: "('a \<Rightarrow> 's \<Rightarrow> py_error + 's) \<Rightarrow> 'a list \<Rightarrow> 's \<Rightarrow> py_error + 's" where
  "for_each body [] s = Inr s"
| "for_each body (x # xs) s =
     (case body x s of Inl e \<Rightarrow> Inl e | Inr s' \<Rightarrow> for_each body xs s')"

section \<open>\<^verbatim>\<open>dataset_iterator\<close>\<close>

text \<open>
  \<^verbatim>\<open>
  def dataset_iterator(dataset, batch_size=32, shuffle=True):
      if shuffle:
          random.shuffle(dataset)
      count_sampled = 0
      n = len(dataset)
      while (count_sampled < n):
          yield dataset[count_sampled:count_sampled + batch_size]
          count_sampled += batch_size
  \<close>
  The generator is modelled by the list of everything it yields when it is run to
  exhaustion. The \<^verbatim>\<open>while\<close> loop does not end for a non-positive \<^verbatim>\<open>batch_size\<close> on a
  non-empty dataset, so the loop is a partial function and \<open>None\<close> stands for a generator
  that never stops. \<^verbatim>\<open>random.shuffle\<close> permutes the caller's list in place: the
  permutation it picks is the parameter \<open>random_shuffle\<close>, and the list as the caller
  sees it afterwards is the second component of the result.
\<close>

partial_function (option) dataset_loop ::
  "'a list \<Rightarrow> int \<Rightarrow> int \<Rightarrow> int \<Rightarrow> 'a list list option" where
  "dataset_loop dataset batch_size n count_sampled =
     (if count_sampled < n
      then Option.bind (dataset_loop dataset batch_size n (count_sampled + batch_size))
             (\<lambda>rest. Some (py_slice dataset count_sampled (count_sampled + batch_size) # rest))
      else Some [])"

definition dataset_iterator ::
  "('a list \<Rightarrow> 'a list) \<Rightarrow> 'a list \<Rightarrow> int \<Rightarrow> bool \<Rightarrow> 'a list list option \<times> 'a list" where
  "dataset_iterator random_shuffle dataset batch_size shuffle =
     (let dataset = (if shuffle then random_shuffle dataset else dataset);
          count_sampled = 0;
          n = int (length dataset)
      in (dataset_loop dataset batch_size n count_sampled, dataset))"

text \<open>
  Cutting a list into consecutive pieces of \<open>b\<close> elements, the last one possibly shorter.
  It describes what the loop above yields for a positive batch size, and it is how the
  framework's \<^verbatim>\<open>DataLoader\<close> (with its default \<^verbatim>\<open>drop_last=False\<close>) groups a dataset
  into batches.
\<close>

fun batched :: "nat \<Rightarrow> 'a list \<Rightarrow> 'a list list" where
  "batched b xs = (if b = 0 \<or> xs = [] then [] else take b xs # batched b (drop b xs))"

declare batched.simps [simp del]


section \<open>\<^verbatim>\<open>SeqDataset\<close> and \<^verbatim>\<open>seq_data_to_dataset\<close>\<close>

text \<open>
  \<^verbatim>\<open>
  class SeqDataset(Dataset):
      def __init__(self, X, Y):
          self.X = X
          self.Y = Y
      def __len__(self):
          return self.Y.size(0)
      def __getitem__(self, idx):
          sample = {'sequence': self.X[idx, :, :], 'label': self.Y[idx]}
          return sample
  \<close>
  \<open>X\<close> is a tensor whose first axis runs over the examples: it is modelled by the list of
  its rows, whatever a row is (\<open>'x\<close>). \<open>Y\<close> is the integer tensor of the labels.
\<close>

record 'x SeqDataset =
  X :: "'x list"
  Y :: "int list"

text \<open>
  The dictionary \<^verbatim>\<open>{'sequence': ..., 'label': ...}\<close>. One example is a row with its label; a
  batch, as the framework's loader collates it, has the same two keys and holds the rows
  and the labels of its examples.
\<close>

record ('s, 'l) sample =
  sequence :: 's
  label :: 'l

definition len_SeqDataset :: "'x SeqDataset \<Rightarrow> nat" where
  "len_SeqDataset self = length (Y self)"

definition getitem :: "'x SeqDataset \<Rightarrow> int \<Rightarrow> py_error + ('x, int) sample" where
  "getitem self idx =
     (case py_index (X self) idx of
        Inl e \<Rightarrow> Inl e
      | Inr s \<Rightarrow>
          (case py_index (Y self) idx of
             Inl e \<Rightarrow> Inl e
           | Inr l \<Rightarrow> Inr \<lparr>sequence = s, label = l\<rparr>))"

text \<open>
  \<^verbatim>\<open>
  def seq_data_to_dataset(seq_data, cap_len, num_features, standardize=True):
      X, idx_removed = preprocess_sequences_to_fixed_len(seq_data, cap_len, num_features)
      X = standardize_and_turn_tensor(X, standardize=standardize)
      Y = torch.from_numpy(np.concatenate(
            [x_y[1] for ix, x_y in enumerate(seq_data) if ix not in idx_removed]))
      return SeqDataset(X, Y)
  \<close>
  An element \<^verbatim>\<open>x_y\<close> of \<^verbatim>\<open>seq_data\<close> is a pair of a sequence (\<^verbatim>\<open>x_y[0]\<close>) and a label array
  (\<^verbatim>\<open>x_y[1]\<close>). The two helpers come from the module \<^verbatim>\<open>utils\<close>, which is not part of the
  sources at hand: they are the parameters \<open>preprocess_sequences_to_fixed_len\<close> and
  \<open>standardize_and_turn_tensor\<close>. \<^verbatim>\<open>np.concatenate\<close> raises \<^verbatim>\<open>ValueError\<close> when it is given
  no array at all.
\<close>

definition seq_data_to_dataset ::
  "(('s \<times> int list) list \<Rightarrow> nat \<Rightarrow> nat \<Rightarrow> 'r \<times> nat set) \<Rightarrow> ('r \<Rightarrow> bool \<Rightarrow> 'x list) \<Rightarrow>
   ('s \<times> int list) list \<Rightarrow> nat \<Rightarrow> nat \<Rightarrow> bool \<Rightarrow> py_error + 'x SeqDataset" where
  "seq_data_to_dataset preprocess_sequences_to_fixed_len standardize_and_turn_tensor
       seq_data cap_len num_features standardize =
     (let (X, idx_removed) = preprocess_sequences_to_fixed_len seq_data cap_len num_features;
          X = standardize_and_turn_tensor X standardize;
          arrays = map (\<lambda>(ix, x_y). snd x_y)
                     (filter (\<lambda>(ix, x_y). ix \<notin> idx_removed) (enumerate_py seq_data))
      in if arrays = [] then Inl ValueError
         else Inr \<lparr>X = X, Y = concat arrays\<rparr>)"

section \<open>The baseline accuracy\<close>

text \<open>
  \<^verbatim>\<open>
  baseline_acc = train_dataset.Y.float().mean().item()
  baseline_acc = max(1 - baseline_acc, baseline_acc)
  \<close>
  \<^verbatim>\<open>Y.float()\<close> is a tensor of single precision numbers and its mean is taken in single
  precision; \<^verbatim>\<open>.item()\<close> turns the result into a Python float, a double precision number,
  and the subtraction is made in double precision. A floating point value is a real number
  of the format, an infinity, or NaN (zero carries no sign here).
\<close>

datatype pyfloat = Finite real | PosInf | NegInf | NaN

text \<open>
  \<open>binary_exponent n a\<close> is the exponent \<open>e\<close> with \<open>2 ^ e \<le> a < 2 ^ (e + 1)\<close> of a positive \<open>a\<close>,
  searched over \<open>n\<close> steps in each direction. \<open>round_half_even\<close> rounds to the nearest
  integer, a tie going to the even one.
\<close>

fun binary_exponent :: "nat \<Rightarrow> real \<Rightarrow> int" where
  "binary_exponent 0 a = 0"
| "binary_exponent (Suc n) a =
     (if 2 \<le> a then binary_exponent n (a / 2) + 1
      else if a < 1 then binary_exponent n (2 * a) - 1
      else 0)"

definition round_half_even :: "real \<Rightarrow> int" where
  "round_half_even q =
     (let f = \<lfloor>q\<rfloor>; d = q - of_int f
      in if d < 1 / 2 then f else if 1 / 2 < d then f + 1 else if even f then f else f + 1)"

text \<open>
  Rounding a real number to the binary format of precision \<open>p\<close> whose exponents range from
  \<open>emin\<close> to \<open>emax\<close>, to the nearest value of the format, ties to even, as IEEE 754
  prescribes: below \<open>2 ^ emin\<close> the values are spaced as in the lowest binade (subnormal
  numbers), and what rounds to \<open>2 ^ (emax + 1)\<close> or more is an infinity.
\<close>

definition round_float :: "nat \<Rightarrow> int \<Rightarrow> int \<Rightarrow> real \<Rightarrow> pyfloat" where
  "round_float p emin emax x =
     (if x = 0 then Finite 0
      else
        (let a = \<bar>x\<bar>;
             e = max emin (binary_exponent (nat (emax - emin)) a);
             u = 2 powi (e - int p + 1);
             m = round_half_even (a / u)
         in if emax < e \<or> (e = emax \<and> m = 2 ^ p) then (if 0 < x then PosInf else NegInf)
            else Finite (if 0 < x then of_int m * u else - (of_int m * u))))"

definition float32 :: "real \<Rightarrow> pyfloat" where
  "float32 x = round_float 24 (- 126) 127 x"

definition float64 :: "real \<Rightarrow> pyfloat" where
  "float64 x = round_float 53 (- 1022) 1023 x"

text \<open>
  The operations the two lines use: the sum and the quotient of single precision numbers,
  the difference of double precision numbers, and the comparison \<^verbatim>\<open><\<close>, which is false
  whenever an operand is NaN.
\<close>

definition float_add32 :: "pyfloat \<Rightarrow> pyfloat \<Rightarrow> pyfloat" where
  "float_add32 x y =
     (case x of
        Finite a \<Rightarrow> (case y of Finite b \<Rightarrow> float32 (a + b) | _ \<Rightarrow> y)
      | PosInf \<Rightarrow> (case y of NegInf \<Rightarrow> NaN | NaN \<Rightarrow> NaN | _ \<Rightarrow> PosInf)
      | NegInf \<Rightarrow> (case y of PosInf \<Rightarrow> NaN | NaN \<Rightarrow> NaN | _ \<Rightarrow> NegInf)
      | NaN \<Rightarrow> NaN)"

definition float_div32 :: "pyfloat \<Rightarrow> pyfloat \<Rightarrow> pyfloat" where
  "float_div32 x y =
     (case x of
        Finite a \<Rightarrow>
          (case y of
             Finite b \<Rightarrow> if b = 0 then (if a = 0 then NaN else if 0 < a then PosInf else NegInf)
                         else float32 (a / b)
           | NaN \<Rightarrow> NaN
           | _ \<Rightarrow> Finite 0)
      | PosInf \<Rightarrow> (case y of Finite b \<Rightarrow> if 0 \<le> b then PosInf else NegInf | _ \<Rightarrow> NaN)
      | NegInf \<Rightarrow> (case y of Finite b \<Rightarrow> if 0 \<le> b then NegInf else PosInf | _ \<Rightarrow> NaN)
      | NaN \<Rightarrow> NaN)"

definition float_sub64 :: "pyfloat \<Rightarrow> pyfloat \<Rightarrow> pyfloat" where
  "float_sub64 x y =
     (case x of
        Finite a \<Rightarrow> (case y of Finite b \<Rightarrow> float64 (a - b) | PosInf \<Rightarrow> NegInf
                      | NegInf \<Rightarrow> PosInf | NaN \<Rightarrow> NaN)
      | PosInf \<Rightarrow> (case y of PosInf \<Rightarrow> NaN | NaN \<Rightarrow> NaN | _ \<Rightarrow> PosInf)
      | NegInf \<Rightarrow> (case y of NegInf \<Rightarrow> NaN | NaN \<Rightarrow> NaN | _ \<Rightarrow> NegInf)
      | NaN \<Rightarrow> NaN)"

definition float_less :: "pyfloat \<Rightarrow> pyfloat \<Rightarrow> bool" where
  "float_less x y =
     (case x of
        Finite a \<Rightarrow> (case y of Finite b \<Rightarrow> a < b | PosInf \<Rightarrow> True | _ \<Rightarrow> False)
      | NegInf \<Rightarrow> (case y of Finite b \<Rightarrow> True | PosInf \<Rightarrow> True | _ \<Rightarrow> False)
      | _ \<Rightarrow> False)"

text \<open>
  Python's \<^verbatim>\<open>max(x, y)\<close> keeps its first argument unless the second is greater.
\<close>

definition py_max :: "pyfloat \<Rightarrow> pyfloat \<Rightarrow> pyfloat" where
  "py_max x y = (if float_less x y then y else x)"

text \<open>
  The mean of the framework is the sum divided by the number of elements. The sum is
  taken here from left to right; the framework may add in another order, which gives the
  same result as long as every partial sum is a number of the format, as it is for fewer
  than \<open>2 ^ 24\<close> labels that are 0 or 1. The mean of a tensor without elements is \<open>0 / 0\<close>, not
  a number.
\<close>

definition baseline_accuracy :: "'x SeqDataset \<Rightarrow> pyfloat" where
  "baseline_accuracy train_dataset =
     (let Y_float = map (\<lambda>y. float32 (of_int y)) (Y train_dataset);
          total = foldl float_add32 (Finite 0) Y_float;
          baseline_acc = float_div32 total (float32 (real (length Y_float)))
      in py_max (float_sub64 (Finite 1) baseline_acc) baseline_acc)"

text \<open>The fraction of the labels that are 1.\<close>

definition positive_fraction :: "'x SeqDataset \<Rightarrow> real" where
  "positive_fraction ds = real (length (filter (\<lambda>y. y = 1) (Y ds))) / real (length (Y ds))"

section \<open>\<^verbatim>\<open>LSTMClassifier\<close>\<close>

text \<open>
  \<^verbatim>\<open>
  class LSTMClassifier(nn.Module):
      def __init__(self, input_size, seq_size, h_size, n_classes=2, n_lstm_layers=1,
                   n_linear_layers_hidden=0, dropout=0.):
          super(LSTMClassifier, self).__init__()
          self.lstm = nn.LSTM(input_size=input_size, hidden_size=h_size,
                              num_layers=n_lstm_layers, batch_first=True, dropout=dropout,
                              bidirectional=False)
          self.linear = nn.Sequential(
              *chain(*[(nn.Linear(h_size, h_size), nn.ReLU())
                       for _ in range(n_linear_layers_hidden)]),
              nn.Linear(h_size, n_classes))
          self.n_classes = n_classes
  \<close>
  The layers are the framework's. A linear layer is its two sizes, its weight matrix (one
  row per output) and its bias vector; the framework draws the initial entries at random,
  here they are read from the parameters \<open>w\<close> and \<open>b\<close>, so that the matrix has
  \<open>out_features\<close> rows of \<open>in_features\<close> entries by construction. The recurrent layer is
  its configuration and its weights, of a type \<open>'w\<close> that is left open.
\<close>

datatype layer =
    Linear (in_features: nat) (out_features: nat) (weight: "real list list") (bias: "real list")
  | ReLU

datatype 'w LSTM =
  LSTM (lstm_input_size: nat) (lstm_hidden_size: nat) (lstm_num_layers: nat)
       (lstm_batch_first: bool) (lstm_dropout: real) (lstm_bidirectional: bool)
       (lstm_weights: 'w)

record 'w LSTMClassifier =
  lstm :: "'w LSTM"
  linear :: "layer list"
  n_classes :: nat

definition new_Linear ::
  "(nat \<Rightarrow> nat \<Rightarrow> nat \<Rightarrow> real) \<Rightarrow> (nat \<Rightarrow> nat \<Rightarrow> real) \<Rightarrow> nat \<Rightarrow> nat \<Rightarrow> nat \<Rightarrow> layer" where
  "new_Linear w b k n_in n_out =
     Linear n_in n_out (map (\<lambda>r. map (\<lambda>c. w k r c) [0..<n_in]) [0..<n_out])
                       (map (\<lambda>r. b k r) [0..<n_out])"

text \<open>The default of the keyword argument \<^verbatim>\<open>n_classes\<close>.\<close>

definition n_classes_default :: nat where
  "n_classes_default = 2"

text \<open>
  \<^verbatim>\<open>range(n_linear_layers_hidden)\<close> is empty for a negative argument, whence \<open>nat\<close>. The
  \<open>k\<close>-th linear layer that is created takes the entries \<open>w k\<close> and \<open>b k\<close>; \<open>lstm_w\<close> are
  the initial weights of the recurrent layer. A primed name is the argument of that name.
\<close>

definition LSTMClassifier_init ::
  "'w \<Rightarrow> (nat \<Rightarrow> nat \<Rightarrow> nat \<Rightarrow> real) \<Rightarrow> (nat \<Rightarrow> nat \<Rightarrow> real) \<Rightarrow>
   nat \<Rightarrow> nat \<Rightarrow> nat \<Rightarrow> nat \<Rightarrow> nat \<Rightarrow> int \<Rightarrow> real \<Rightarrow> 'w LSTMClassifier" where
  "LSTMClassifier_init lstm_w w b
       input_size seq_size h_size n_classes' n_lstm_layers n_linear_layers_hidden dropout' =
     \<lparr>lstm = LSTM input_size h_size n_lstm_layers True dropout' False lstm_w,
      linear = concat (map (\<lambda>k. [new_Linear w b k h_size h_size, ReLU])
                           [0..<nat n_linear_layers_hidden])
               @ [new_Linear w b (nat n_linear_layers_hidden) h_size n_classes'],
      n_classes = n_classes'\<rparr>"

text \<open>
  \<^verbatim>\<open>
      def forward(self, seq):
          """
          input = seq = torch FloatTensor of size (B, Seqlen, Input_size)
          output is of size (B, hidden_size * num layers) -> concatenation of the last
          hidden state over the LSTM layers
          returns = the logits of this output passed to a linear layer
          """
          out, (_, _) = self.lstm(seq)
          return self.linear(out.mean(1))
  \<close>
  A tensor with three axes is a list of lists of rows. What \<^verbatim>\<open>nn.LSTM\<close> computes is the
  parameter \<open>lstm_call\<close>: it returns \<^verbatim>\<open>out\<close> (for every batch element and every time step,
  the hidden state of the last layer) and the pair \<^verbatim>\<open>(h_n, c_n)\<close> (for every layer, the
  last hidden and cell states), or raises. A linear layer refuses a vector whose length
  is not \<open>in_features\<close> (\<^verbatim>\<open>RuntimeError\<close>). The mean over an axis without elements is not a
  number: a batch element without time steps gives a row of NaN, which stays NaN through
  the head and is the row \<open>None\<close> of the result.
\<close>

type_synonym tensor3 = "real list list list"

definition shape3 :: "tensor3 \<Rightarrow> nat \<times> nat \<times> nat \<Rightarrow> bool" where
  "shape3 t s = (case s of (a, b, c) \<Rightarrow>
     length t = a \<and> list_all (\<lambda>m. length m = b \<and> list_all (\<lambda>r. length r = c) m) t)"

definition time_mean :: "real list list \<Rightarrow> real list option" where
  "time_mean rows =
     (if rows = [] then None
      else Some (map (\<lambda>j. (\<Sum>r\<leftarrow>rows. r ! j) / real (length rows)) [0..<length (hd rows)]))"

fun apply_layer :: "layer \<Rightarrow> real list \<Rightarrow> py_error + real list" where
  "apply_layer (Linear n_in n_out W b) x =
     (if length x \<noteq> n_in then Inl RuntimeError
      else Inr (map (\<lambda>(w, b_j). (\<Sum>(w_k, x_k)\<leftarrow>zip w x. w_k * x_k) + b_j) (zip W b)))"
| "apply_layer ReLU x = Inr (map (max 0) x)"

definition sequential :: "layer list \<Rightarrow> real list \<Rightarrow> py_error + real list" where
  "sequential layers x = for_each apply_layer layers x"

fun map_rows :: "('a \<Rightarrow> py_error + 'b) \<Rightarrow> 'a list \<Rightarrow> py_error + 'b list" where
  "map_rows f [] = Inr []"
| "map_rows f (x # xs) =
     (case f x of
        Inl e \<Rightarrow> Inl e
      | Inr y \<Rightarrow> (case map_rows f xs of Inl e \<Rightarrow> Inl e | Inr ys \<Rightarrow> Inr (y # ys)))"

definition forward ::
  "('w LSTM \<Rightarrow> tensor3 \<Rightarrow> py_error + tensor3 \<times> tensor3 \<times> tensor3) \<Rightarrow>
   'w LSTMClassifier \<Rightarrow> tensor3 \<Rightarrow> py_error + real list option list" where
  "forward lstm_call self seq =
     (case lstm_call (lstm self) seq of
        Inl e \<Rightarrow> Inl e
      | Inr (out, h_n, c_n) \<Rightarrow>
          map_rows (\<lambda>rows. case time_mean rows of
                              None \<Rightarrow> Inr None
                            | Some v \<Rightarrow> (case sequential (linear self) v of
                                           Inl e \<Rightarrow> Inl e
                                         | Inr logits \<Rightarrow> Inr (Some logits)))
                   out)"
section \<open>The command line\<close>

text \<open>
  The namespace that \<^verbatim>\<open>parser.parse_args()\<close> returns, with the arguments the script reads
  after the dataset is built. Sizes and counts that the framework wants non-negative are
  of type \<open>nat\<close>; a flag is an integer, read as true when it is not zero.
\<close>

record args =
  lr :: real
  num_epochs :: int
  num_lstm_layers :: nat
  num_linear_layers :: int
  hidden_size :: nat
  dropout :: real
  batch_size :: int
  debug :: int
  test_on_train :: int
  verbose :: int
  cap_len :: nat
  exp_name :: string

section \<open>The file system\<close>

text \<open>
  The file system is a tree: a node is a regular file or a directory with its entries, by
  name. The process has a working directory, given by the names that lead to it from the
  root. Symbolic links, permissions, other processes and the contents of files are not
  modelled.
\<close>

datatype node = File | Dir "(string \<times> node) list"

record filesystem =
  fs_root :: node
  fs_cwd :: "string list"

text \<open>
  The node at the end of a list of names, and the tree with a new node at such a place
  (the names but the last must lead to a directory that has no entry of the last name).
\<close>

primrec lookup :: "string list \<Rightarrow> node \<Rightarrow> node option" where
  "lookup [] n = Some n"
| "lookup (c # cs) n =
     (case n of
        File \<Rightarrow> None
      | Dir entries \<Rightarrow> (case map_of entries c of None \<Rightarrow> None | Some n' \<Rightarrow> lookup cs n'))"

primrec add_node :: "string list \<Rightarrow> node \<Rightarrow> node \<Rightarrow> node" where
  "add_node [] new n = n"
| "add_node (c # cs) new n =
     (case n of
        File \<Rightarrow> File
      | Dir entries \<Rightarrow>
          if cs = [] then (if map_of entries c = None then Dir (entries @ [(c, new)]) else n)
          else Dir (map (\<lambda>(k, v). if k = c then (k, add_node cs new v) else (k, v)) entries))"

text \<open>
  A path is a string, as the operating system (POSIX) reads it: components separated by
  \<^verbatim>\<open>/\<close>, resolved from the root when the path starts with \<^verbatim>\<open>/\<close> and from the working
  directory otherwise. An empty component and \<^verbatim>\<open>.\<close> stay where they are, \<^verbatim>\<open>..\<close> goes to the
  parent (the root is its own parent), and a component can only be looked up in an
  existing directory. A name of more than \<open>NAME_MAX\<close> bytes and a path of \<open>PATH_MAX\<close>
  bytes or more are refused (the limits of Linux); Python refuses a path with a null byte
  before it reaches the system. \<open>walk tree cur comps\<close> follows the components \<open>comps\<close> from
  the place \<open>cur\<close> and returns the place it reaches, which need not exist.
\<close>

definition sep :: char where
  "sep = CHR ''/''"

primrec split_sep :: "string \<Rightarrow> string list" where
  "split_sep [] = [[]]"
| "split_sep (c # cs) =
     (if c = sep then [] # split_sep cs
      else (case split_sep cs of [] \<Rightarrow> [[c]] | w # ws \<Rightarrow> (c # w) # ws))"

definition NAME_MAX :: nat where
  "NAME_MAX = 255"

definition PATH_MAX :: nat where
  "PATH_MAX = 4096"

fun walk :: "node \<Rightarrow> string list \<Rightarrow> string list \<Rightarrow> py_error + string list" where
  "walk tree cur [] = Inr cur"
| "walk tree cur (c # cs) =
     (case lookup cur tree of
        None \<Rightarrow> Inl FileNotFoundError
      | Some File \<Rightarrow> Inl NotADirectoryError
      | Some (Dir entries) \<Rightarrow>
          if c = [] \<or> c = ''.'' then walk tree cur cs
          else if c = ''..'' then walk tree (butlast cur) cs
          else if NAME_MAX < length c then Inl OSError
          else walk tree (cur @ [c]) cs)"

definition start_dir :: "filesystem \<Rightarrow> string \<Rightarrow> string list" where
  "start_dir fs p = (if p \<noteq> [] \<and> hd p = sep then [] else fs_cwd fs)"

definition check_path :: "string \<Rightarrow> py_error option" where
  "check_path p =
     (if CHR 0x00 \<in> set p then Some ValueError
      else if p = [] then Some FileNotFoundError
      else if PATH_MAX \<le> length p then Some OSError
      else None)"

text \<open>
  \<^verbatim>\<open>os.stat\<close>, and \<^verbatim>\<open>os.path.isdir\<close>, \<^verbatim>\<open>os.path.isfile\<close> and \<^verbatim>\<open>os.path.exists\<close>, which call it
  and answer \<^verbatim>\<open>False\<close> when it raises.
\<close>

definition stat :: "filesystem \<Rightarrow> string \<Rightarrow> py_error + node" where
  "stat fs p =
     (case check_path p of
        Some e \<Rightarrow> Inl e
      | None \<Rightarrow>
          (case walk (fs_root fs) (start_dir fs p) (split_sep p) of
             Inl e \<Rightarrow> Inl e
           | Inr c \<Rightarrow> (case lookup c (fs_root fs) of
                         None \<Rightarrow> Inl FileNotFoundError
                       | Some n \<Rightarrow> Inr n)))"

definition isdir :: "filesystem \<Rightarrow> string \<Rightarrow> bool" where
  "isdir fs p = (case stat fs p of Inr (Dir entries) \<Rightarrow> True | _ \<Rightarrow> False)"

definition isfile :: "filesystem \<Rightarrow> string \<Rightarrow> bool" where
  "isfile fs p = (case stat fs p of Inr File \<Rightarrow> True | _ \<Rightarrow> False)"

definition path_exists :: "filesystem \<Rightarrow> string \<Rightarrow> bool" where
  "path_exists fs p = (case stat fs p of Inr n \<Rightarrow> True | Inl e \<Rightarrow> False)"

text \<open>
  Creating a node at a path: the slashes at the end of the path are dropped, the
  components but the last must lead to an existing directory, and the last one names the
  new node. The system refuses \<^verbatim>\<open>.\<close> and \<^verbatim>\<open>..\<close> as the last component, and a name that is
  taken, with the error \<open>exists_error\<close>. \<^verbatim>\<open>os.mkdir\<close> creates a directory in this way.
\<close>

definition strip_trailing :: "string list \<Rightarrow> string list" where
  "strip_trailing comps = rev (dropWhile (\<lambda>c. c = []) (rev comps))"

definition create :: "node \<Rightarrow> py_error \<Rightarrow> filesystem \<Rightarrow> string \<Rightarrow> py_error + filesystem" where
  "create new exists_error fs p =
     (case check_path p of
        Some e \<Rightarrow> Inl e
      | None \<Rightarrow>
          (let comps = strip_trailing (split_sep p) in
           if comps = [] then Inl exists_error
           else
             (case walk (fs_root fs) (start_dir fs p) (butlast comps @ [[]]) of
                Inl e \<Rightarrow> Inl e
              | Inr parent \<Rightarrow>
                  if last comps = ''.'' \<or> last comps = ''..'' then Inl exists_error
                  else if NAME_MAX < length (last comps) then Inl OSError
                  else
                    (case lookup (parent @ [last comps]) (fs_root fs) of
                       Some n \<Rightarrow> Inl exists_error
                     | None \<Rightarrow>
                         Inr (fs\<lparr>fs_root := add_node (parent @ [last comps]) new (fs_root fs)\<rparr>)))))"

definition mkdir :: "filesystem \<Rightarrow> string \<Rightarrow> py_error + filesystem" where
  "mkdir fs p = create (Dir []) FileExistsError fs p"

text \<open>
  \<^verbatim>\<open>os.path.join(a, b)\<close> and \<^verbatim>\<open>os.path.split(p)\<close> of the module \<^verbatim>\<open>posixpath\<close>:
  \<^verbatim>\<open>
      if b.startswith(sep):
          path = b
      elif not path or path.endswith(sep):
          path += b
      else:
          path += sep + b
  \<close>
  \<^verbatim>\<open>
      i = p.rfind(sep) + 1
      head, tail = p[:i], p[i:]
      if head and head != sep*len(head):
          head = head.rstrip(sep)
      return head, tail
  \<close>
\<close>

definition os_path_join :: "string \<Rightarrow> string \<Rightarrow> string" where
  "os_path_join a b =
     (if b \<noteq> [] \<and> hd b = sep then b
      else if a = [] \<or> last a = sep then a @ b
      else a @ [sep] @ b)"

definition rstrip_sep :: "string \<Rightarrow> string" where
  "rstrip_sep s = rev (dropWhile (\<lambda>c. c = sep) (rev s))"

definition os_path_split :: "string \<Rightarrow> string \<times> string" where
  "os_path_split p =
     (let tail = rev (takeWhile (\<lambda>c. c \<noteq> sep) (rev p));
          head = rev (dropWhile (\<lambda>c. c \<noteq> sep) (rev p))
      in (if head \<noteq> [] \<and> head \<noteq> replicate (length head) sep then rstrip_sep head else head,
          tail))"

text \<open>
  \<^verbatim>\<open>os.makedirs(name, exist_ok)\<close> of the standard library:
  \<^verbatim>\<open>
      head, tail = path.split(name)
      if not tail:
          head, tail = path.split(head)
      if head and tail and not path.exists(head):
          try:
              makedirs(head, exist_ok=exist_ok)
          except FileExistsError:
              pass
          cdir = curdir
          if tail == cdir:
              return
      try:
          mkdir(name, mode)
      except OSError:
          if not exist_ok or not path.isdir(name):
              raise
  \<close>
  An exception of the inner call leaves what that call had created, and the outer call
  goes on from there when it passes over the exception: the function returns the
  exception, if any, together with the file system.
\<close>

function makedirs :: "bool \<Rightarrow> filesystem \<Rightarrow> string \<Rightarrow> py_error option \<times> filesystem" where
  "makedirs exist_ok fs name =
     (let (head, tail) = os_path_split name;
          (head, tail) = (if tail = [] then os_path_split head else (head, tail));
          (raised, finished, fs) =
             (if head \<noteq> [] \<and> tail \<noteq> [] \<and> \<not> path_exists fs head
              then (case makedirs exist_ok fs head of
                      (None, fs') \<Rightarrow> (None, tail = ''.'', fs')
                    | (Some e, fs') \<Rightarrow>
                        if e = FileExistsError then (None, tail = ''.'', fs')
                        else (Some e, False, fs'))
              else (None, False, fs))
      in if raised \<noteq> None \<or> finished then (raised, fs)
         else (case mkdir fs name of
                 Inr fs' \<Rightarrow> (None, fs')
               | Inl e \<Rightarrow> if \<not> exist_ok \<or> \<not> isdir fs name then (Some e, fs) else (None, fs)))"
  by pat_completeness auto
termination
proof (relation "measure (\<lambda>(exist_ok, fs, name). length name)")
  show "wf (measure (\<lambda>(exist_ok, fs, name). length name))" by simp
next
  fix exist_ok :: bool and fs :: filesystem and name xa y x1 x2 :: string
    and x xb :: "string \<times> string"
  assume a: "x = os_path_split name" "(xa, y) = x"
    "xb = (if y = [] then os_path_split xa else (xa, y))" "(x1, x2) = xb"
    "x1 \<noteq> [] \<and> x2 \<noteq> [] \<and> \<not> path_exists fs x1"
  have shorter: "length h \<le> length p \<and> (t \<noteq> [] \<longrightarrow> length h < length p)"
    if "os_path_split p = (h, t)" for p h t
  proof -
    define h0 where "h0 = rev (dropWhile (\<lambda>c. c \<noteq> sep) (rev p))"
    have t: "t = rev (takeWhile (\<lambda>c. c \<noteq> sep) (rev p))"
      using that by (simp add: os_path_split_def Let_def)
    have "length (rstrip_sep h0) \<le> length h0"
      unfolding rstrip_sep_def by (metis length_dropWhile_le length_rev)
    then have "length h \<le> length h0"
      using that by (auto simp: os_path_split_def Let_def h0_def)
    moreover have "length h0 + length t = length p"
      unfolding h0_def t
      by (metis add.commute length_append length_rev takeWhile_dropWhile_id)
    ultimately show ?thesis by (auto simp: neq_Nil_conv)
  qed
  have first: "length xa \<le> length name" "y \<noteq> [] \<Longrightarrow> length xa < length name"
    using shorter[of name xa y] a(1,2) by simp_all
  have "length x1 < length name"
  proof (cases "y = []")
    case True
    then have "os_path_split xa = (x1, x2)" using a(3,4) by simp
    from shorter[OF this] a(5) have "length x1 < length xa" by simp
    with first(1) show ?thesis by simp
  next
    case False
    then have "x1 = xa" using a(3,4) by simp
    with first(2)[OF False] show ?thesis by simp
  qed
  then show "((exist_ok, fs, x1), (exist_ok, fs, name))
             \<in> measure (\<lambda>(exist_ok, fs, name). length name)"
    by simp
qed

declare makedirs.simps [simp del]

text \<open>
  The framework's \<^verbatim>\<open>SummaryWriter(log_dir)\<close> creates its directory when it is missing, as
  \<^verbatim>\<open>os.makedirs(log_dir, exist_ok=True)\<close> does, and opens a new event file in it for
  writing. The name of that file (a time stamp, the host, the process) is the parameter
  \<open>event_file\<close>. Opening a file for writing creates it unless it exists, and fails on a
  directory.
\<close>

definition open_for_writing :: "filesystem \<Rightarrow> string \<Rightarrow> py_error + filesystem" where
  "open_for_writing fs p =
     (case stat fs p of
        Inr File \<Rightarrow> Inr fs
      | Inr (Dir entries) \<Rightarrow> Inl IsADirectoryError
      | Inl e \<Rightarrow>
          if e \<noteq> FileNotFoundError then Inl e
          else if last (split_sep p) = [] then Inl IsADirectoryError
          else create File IsADirectoryError fs p)"

definition SummaryWriter :: "string \<Rightarrow> filesystem \<Rightarrow> string \<Rightarrow> py_error + filesystem" where
  "SummaryWriter event_file fs log_dir =
     (case makedirs True fs log_dir of
        (Some e, fs') \<Rightarrow> Inl e
      | (None, fs') \<Rightarrow> open_for_writing fs' (os_path_join log_dir event_file))"

section \<open>The framework's data loader\<close>

text \<open>
  \<^verbatim>\<open>DataLoader(dataset, batch_size, shuffle)\<close> refuses a batch size that is not positive.
  Its length is the number of batches. Each time it is iterated it takes the indices of
  the dataset, in a fresh random order when \<^verbatim>\<open>shuffle\<close> is set, cuts them into batches and
  collates the items of each batch. The random order of the \<open>k\<close>-th iteration that the
  program starts is the parameter \<open>randperm k\<close>.
\<close>

datatype 'x DataLoader =
  DataLoader (dl_dataset: "'x SeqDataset") (dl_batch_size: nat) (dl_shuffle: bool)

definition DataLoader_new :: "'x SeqDataset \<Rightarrow> int \<Rightarrow> bool \<Rightarrow> py_error + 'x DataLoader" where
  "DataLoader_new ds bs sh = (if bs \<le> 0 then Inl ValueError else Inr (DataLoader ds (nat bs) sh))"

definition len_DataLoader :: "'x DataLoader \<Rightarrow> nat" where
  "len_DataLoader loader =
     (len_SeqDataset (dl_dataset loader) + dl_batch_size loader - 1) div dl_batch_size loader"

definition collate :: "('x, int) sample list \<Rightarrow> ('x list, int list) sample" where
  "collate items = \<lparr>sequence = map sequence items, label = map label items\<rparr>"

definition iter_DataLoader ::
  "(nat \<Rightarrow> nat \<Rightarrow> nat list) \<Rightarrow> nat \<Rightarrow> 'x DataLoader \<Rightarrow>
   py_error + ('x list, int list) sample list" where
  "iter_DataLoader randperm k loader =
     (let n = len_SeqDataset (dl_dataset loader);
          indices = (if dl_shuffle loader then randperm k n else [0..<n])
      in map_rows (\<lambda>idxs. case map_rows (\<lambda>i. getitem (dl_dataset loader) (int i)) idxs of
                             Inl e \<Rightarrow> Inl e
                           | Inr items \<Rightarrow> Inr (collate items))
                  (batched (dl_batch_size loader) indices))"

section \<open>\<^verbatim>\<open>train\<close>\<close>

text \<open>
  \<^verbatim>\<open>train\<close> works on any model and optimizer of the framework. What the framework does with
  them is a record of functions, for models of type \<open>'m\<close>, optimizers of type \<open>'o\<close>, rows of
  type \<open>'x\<close> and logits of type \<open>'l\<close>:
  \<^item> \<open>call model sequences\<close> is \<^verbatim>\<open>model(sequences.float())\<close>, the logits of a batch;
  \<^item> \<open>apply_loss loss logits ys\<close> is \<^verbatim>\<open>loss(logits, ys).item()\<close> for a loss module of the
    framework;
  \<^item> \<open>backward_step loss optim model sequences ys\<close> is the optimizer and the model after
    \<^verbatim>\<open>optim.zero_grad(); loss.backward(); optim.step()\<close>, for the loss \<^verbatim>\<open>loss\<close> of that batch;
  \<^item> \<open>max_dim1 logits\<close> is the second component of \<^verbatim>\<open>logits.max(dim=1)\<close>, the class of the
    largest logit for each row;
  \<^item> \<open>model_train\<close> and \<open>model_eval\<close> are \<^verbatim>\<open>model.train()\<close> and \<^verbatim>\<open>model.eval()\<close>;
  \<^item> \<open>randperm\<close> and \<open>event_file\<close> are the random orders of the loaders and the name of the
    event file, as above.
  A call of the model, of a loss or of \<^verbatim>\<open>max\<close> may raise. Losses are real numbers. The loss
  modules are those of \<^verbatim>\<open>torch.nn\<close> for classification and regression, each with its
  argument \<^verbatim>\<open>reduction\<close>; the script builds \<^verbatim>\<open>nn.CrossEntropyLoss(reduction='mean')\<close>.
\<close>

datatype reduction = Mean | Sum | NoReduction

datatype loss = CrossEntropyLoss reduction | NLLLoss reduction | MSELoss reduction | L1Loss reduction

record ('m, 'o, 'x, 'l) torch =
  call :: "'m \<Rightarrow> 'x list \<Rightarrow> py_error + 'l"
  apply_loss :: "loss \<Rightarrow> 'l \<Rightarrow> int list \<Rightarrow> py_error + real"
  backward_step :: "loss \<Rightarrow> 'o \<Rightarrow> 'm \<Rightarrow> 'x list \<Rightarrow> int list \<Rightarrow> 'o \<times> 'm"
  max_dim1 :: "'l \<Rightarrow> py_error + int list"
  model_train :: "'m \<Rightarrow> 'm"
  model_eval :: "'m \<Rightarrow> 'm"
  randperm :: "nat \<Rightarrow> nat \<Rightarrow> nat list"
  event_file :: string

text \<open>
  What a run of \<^verbatim>\<open>train\<close> does to the outside is recorded, in order, as a list of events:
  the calls of \<^verbatim>\<open>model.train()\<close> and \<^verbatim>\<open>model.eval()\<close>, every optimisation step with the
  scalar \<^verbatim>\<open>"loss"\<close> it logs (the step counter before the increment, and the loss), and
  every evaluation with the scalar \<^verbatim>\<open>"Accuracy"\<close> it logs (the step counter, and the
  accuracy), together with the value of \<^verbatim>\<open>max_running_mean\<close> at that point.
\<close>

datatype event =
    Model_train
  | Model_eval
  | Train_step nat real
  | Evaluation nat real real

record ('m, 'o) train_state =
  model :: 'm
  optim :: 'o
  rng :: nat
  global_step :: nat
  accuracies :: "real list"
  max_running_mean :: real
  epoch_loss :: real
  running_loss :: real
  events :: "event list"

text \<open>
  The first lines of \<^verbatim>\<open>train\<close>:
  \<^verbatim>\<open>
      log_dir = os.path.join("logs", args.exp_name)
      if not os.path.isdir(log_dir):
          os.makedirs(log_dir)
      train_writer = SummaryWriter(os.path.join(log_dir, "train"))
      checkpoint_dir = os.path.join("checkpoints", args.exp_name)
      checkpoint_path = os.path.join(checkpoint_dir, "model.pt")
      if not os.path.isfile(checkpoint_path):
          if not os.path.isdir(checkpoint_dir):
              os.makedirs(checkpoint_dir)
  \<close>
\<close>

definition train_directories :: "string \<Rightarrow> args \<Rightarrow> filesystem \<Rightarrow> py_error + filesystem" where
  "train_directories event_name a fs =
     (let log_dir = os_path_join ''logs'' (exp_name a) in
      case (if \<not> isdir fs log_dir then makedirs False fs log_dir else (None, fs)) of
        (Some e, fs) \<Rightarrow> Inl e
      | (None, fs) \<Rightarrow>
          (case SummaryWriter event_name fs (os_path_join log_dir ''train'') of
             Inl e \<Rightarrow> Inl e
           | Inr fs \<Rightarrow>
               (let checkpoint_dir = os_path_join ''checkpoints'' (exp_name a);
                    checkpoint_path = os_path_join checkpoint_dir ''model.pt''
                in if \<not> isfile fs checkpoint_path
                   then (if \<not> isdir fs checkpoint_dir
                         then (case makedirs False fs checkpoint_dir of
                                 (Some e, fs) \<Rightarrow> Inl e
                               | (None, fs) \<Rightarrow> Inr fs)
                         else Inr fs)
                   else Inr fs)))"

text \<open>
  The evaluation, run when the step counter is a multiple of 5:
  \<^verbatim>\<open>
                  model.eval()
                  correct = 0
                  n_samples = 0
                  with torch.no_grad():
                      for batch in test_loader:
                          sequences, ys = batch['sequence'], batch['label']
                          _, pred = model(sequences.float()).max(dim=1)
                          correct += float(pred.eq(ys).sum().item())
                          n_samples += pred.size(0)
                  acc = correct / n_samples
                  accuracies = np.concatenate([accuracies[1:], np.array([acc])])
                  if accuracies.mean() > max_running_mean:
                      max_running_mean = accuracies.mean()
                  train_writer.add_scalar("Accuracy", acc, global_step)
                  model.train()
  \<close>
  Iterating the default \<^verbatim>\<open>test_loader=None\<close> raises \<^verbatim>\<open>TypeError\<close>, and the division raises
  \<^verbatim>\<open>ZeroDivisionError\<close> when the loader gave no sample. \<^verbatim>\<open>accuracies.mean()\<close> is the mean of
  an array of the library \<^verbatim>\<open>numpy\<close>, on the reals here, and not a number (\<open>None\<close>) for an
  array without elements; a comparison with a mean that is not a number is false. The
  checkpoint is not saved: the lines that would build and save it are commented out in
  the source.
\<close>

definition tensor_mean :: "real list \<Rightarrow> real option" where
  "tensor_mean xs = (if xs = [] then None else Some (sum_list xs / real (length xs)))"

definition test_batch ::
  "('m, 'o, 'x, 'l) torch \<Rightarrow> 'm \<Rightarrow> ('x list, int list) sample \<Rightarrow> real \<times> nat \<Rightarrow>
   py_error + real \<times> nat" where
  "test_batch T m batch acc =
     (case acc of (correct, n_samples) \<Rightarrow>
        (case call T m (sequence batch) of
           Inl e \<Rightarrow> Inl e
         | Inr logits \<Rightarrow>
             (case max_dim1 T logits of
                Inl e \<Rightarrow> Inl e
              | Inr pred \<Rightarrow>
                  Inr (correct
                         + real (length (filter (\<lambda>(p, y). p = y) (zip pred (label batch)))),
                       n_samples + length pred))))"

definition evaluate ::
  "('m, 'o, 'x, 'l) torch \<Rightarrow> 'x DataLoader option \<Rightarrow> ('m, 'o) train_state \<Rightarrow>
   py_error + ('m, 'o) train_state" where
  "evaluate T test_loader s =
     (let s = s\<lparr>model := model_eval T (model s), events := events s @ [Model_eval]\<rparr> in
      case test_loader of
        None \<Rightarrow> Inl TypeError
      | Some loader \<Rightarrow>
          (case iter_DataLoader (randperm T) (rng s) loader of
             Inl e \<Rightarrow> Inl e
           | Inr batches \<Rightarrow>
               (case for_each (test_batch T (model s)) batches (0, 0) of
                  Inl e \<Rightarrow> Inl e
                | Inr (correct, n_samples) \<Rightarrow>
                    if n_samples = 0 then Inl ZeroDivisionError
                    else
                      (let acc = correct / real n_samples;
                           accuracies' = drop 1 (accuracies s) @ [acc];
                           mrm = (case tensor_mean accuracies' of
                                    None \<Rightarrow> max_running_mean s
                                  | Some mean \<Rightarrow>
                                      if mean > max_running_mean s then mean
                                      else max_running_mean s)
                       in Inr (s\<lparr>rng := rng s + 1,
                                 accuracies := accuracies',
                                 max_running_mean := mrm,
                                 model := model_train T (model s),
                                 events := events s
                                           @ [Evaluation (global_step s) acc mrm, Model_train]\<rparr>)))))"

text \<open>
  One round of the inner loop, on the \<open>ix\<close>-th batch of the epoch:
  \<^verbatim>\<open>
              sequences, ys = batch['sequence'], batch['label']
              logits = model(sequences.float())
              loss = loss_function(logits, ys)
              optim.zero_grad()
              loss.backward()
              optim.step()
              train_writer.add_scalar("loss", loss.item(), global_step)
              global_step += 1
              epoch_loss += loss.item()
              if not ix:
                  running_loss = loss.item()
              else:
                  running_loss = running_loss * 0.5 + loss.item() * 0.5
              if args.verbose:
                  print(f"Step {ix + 1}, running loss: {running_loss:.4f}")
              if global_step % 5 == 0:
                  (the evaluation)
  \<close>
  What is printed is not modelled.
\<close>

definition train_step ::
  "('m, 'o, 'x, 'l) torch \<Rightarrow> loss \<Rightarrow> 'x DataLoader option \<Rightarrow>
   nat \<times> ('x list, int list) sample \<Rightarrow> ('m, 'o) train_state \<Rightarrow>
   py_error + ('m, 'o) train_state" where
  "train_step T loss_function test_loader ix_batch s =
     (case ix_batch of (ix, batch) \<Rightarrow>
        (case call T (model s) (sequence batch) of
           Inl e \<Rightarrow> Inl e
         | Inr logits \<Rightarrow>
        (case apply_loss T loss_function logits (label batch) of
           Inl e \<Rightarrow> Inl e
         | Inr loss_value \<Rightarrow>
             (let (optim', model') =
                    backward_step T loss_function (optim s) (model s)
                      (sequence batch) (label batch);
                  s = s\<lparr>model := model',
                        optim := optim',
                        events := events s @ [Train_step (global_step s) loss_value],
                        global_step := global_step s + 1,
                        epoch_loss := epoch_loss s + loss_value,
                        running_loss := (if ix = 0 then loss_value
                                         else running_loss s * 0.5 + loss_value * 0.5)\<rparr>
              in if global_step s mod 5 = 0 then evaluate T test_loader s else Inr s))))"

text \<open>
  One round of the outer loop:
  \<^verbatim>\<open>
          model.train()
          epoch_loss = 0
          running_loss = 0
          for ix, batch in enumerate(train_loader):
              (the round above)
          print("epoch", epoch, "loss:", epoch_loss / len(train_loader))
  \<close>
  The division in the last line raises \<^verbatim>\<open>ZeroDivisionError\<close> for a loader of length 0.
\<close>

definition train_epoch ::
  "('m, 'o, 'x, 'l) torch \<Rightarrow> loss \<Rightarrow> 'x DataLoader \<Rightarrow> 'x DataLoader option \<Rightarrow>
   nat \<Rightarrow> ('m, 'o) train_state \<Rightarrow> py_error + ('m, 'o) train_state" where
  "train_epoch T loss_function train_loader test_loader epoch s =
     (let s = s\<lparr>model := model_train T (model s),
                 events := events s @ [Model_train],
                 epoch_loss := 0,
                 running_loss := 0\<rparr>
      in case iter_DataLoader (randperm T) (rng s) train_loader of
           Inl e \<Rightarrow> Inl e
         | Inr batches \<Rightarrow>
             (case for_each (train_step T loss_function test_loader) (enumerate_py batches)
                     (s\<lparr>rng := rng s + 1\<rparr>) of
                Inl e \<Rightarrow> Inl e
              | Inr s \<Rightarrow>
                  if len_DataLoader train_loader = 0 then Inl ZeroDivisionError else Inr s))"

text \<open>
  \<^verbatim>\<open>
  def train(args, model, optim, train_loader, test_loader=None, baseline_accuracy=0.5):
      (the directories)
      epoch_ckp = 0
      global_step = 0
      accuracies = np.zeros(5, dtype=float)
      max_running_mean = 0.
      loss_function = nn.CrossEntropyLoss(reduction='mean')
      for epoch in range(epoch_ckp, epoch_ckp + args.num_epochs):
          (the round above)
      return max_running_mean
  \<close>
  The model takes the file system and the count of loader iterations started so far, and
  returns, with \<^verbatim>\<open>max_running_mean\<close>, the final state of the run and the file system.
\<close>

definition train ::
  "('m, 'o, 'x, 'l) torch \<Rightarrow> args \<Rightarrow> 'm \<Rightarrow> 'o \<Rightarrow> 'x DataLoader \<Rightarrow> 'x DataLoader option \<Rightarrow>
   pyfloat \<Rightarrow> filesystem \<times> nat \<Rightarrow>
   py_error + real \<times> ('m, 'o) train_state \<times> filesystem" where
  "train T a model0 optim0 train_loader test_loader baseline_acc world =
     (case world of (fs, rng0) \<Rightarrow>
        (case train_directories (event_file T) a fs of
           Inl e \<Rightarrow> Inl e
         | Inr fs \<Rightarrow>
             (let epoch_ckp = 0;
                  s = \<lparr>model = model0, optim = optim0, rng = rng0,
                       global_step = 0,
                       accuracies = replicate 5 0,
                       max_running_mean = 0,
                       epoch_loss = 0, running_loss = 0, events = []\<rparr>;
                  loss_function = CrossEntropyLoss Mean
              in case for_each (train_epoch T loss_function train_loader test_loader)
                        [epoch_ckp ..< epoch_ckp + nat (num_epochs a)] s of
                   Inl e \<Rightarrow> Inl e
                 | Inr s \<Rightarrow> Inr (max_running_mean s, s, fs))))"

section \<open>The script\<close>

text \<open>
  \<^verbatim>\<open>
      lrs = [1. * 10 ** (-i) for i in range(1, 4)]
      batch_sizes = [32, 64]
      hidden_sizes = [12, 24, 48, 64]
  \<close>
\<close>

definition lrs :: "real list" where
  "lrs = map (\<lambda>i. 1 * (1 / 10 ^ i)) [1..<4]"

definition batch_sizes :: "int list" where
  "batch_sizes = [32, 64]"

definition hidden_sizes :: "nat list" where
  "hidden_sizes = [12, 24, 48, 64]"

text \<open>
  \<^verbatim>\<open>best_args\<close> is a list that holds a float and two integers. What the framework draws or
  builds when a model and its optimizer are created, and what its layer \<^verbatim>\<open>nn.LSTM\<close>
  computes, is a second record of functions: the initial weights of the \<open>k\<close>-th model that
  is created (\<open>lstm_init k\<close>, \<open>linear_w k\<close>, \<open>linear_b k\<close>), the optimizer
  \<^verbatim>\<open>torch.optim.Adam(model.parameters(), lr)\<close>, and the call of an LSTM layer on a batch
  (\<open>call_LSTM\<close>).
\<close>

datatype py_value = PyFloat real | PyInt int

record ('w, 'o) torch_init =
  lstm_init :: "nat \<Rightarrow> 'w"
  linear_w :: "nat \<Rightarrow> nat \<Rightarrow> nat \<Rightarrow> nat \<Rightarrow> real"
  linear_b :: "nat \<Rightarrow> nat \<Rightarrow> nat \<Rightarrow> real"
  Adam :: "'w LSTMClassifier \<Rightarrow> real \<Rightarrow> 'o"
  call_LSTM :: "'w LSTM \<Rightarrow> tensor3 \<Rightarrow> py_error + tensor3 \<times> tensor3 \<times> tensor3"

text \<open>
  The models of the script are of the class \<^verbatim>\<open>LSTMClassifier\<close>: calling one runs its method
  \<^verbatim>\<open>forward\<close>. A row of the dataset is a sequence (a list of feature vectors), and the
  logits of a batch are what \<^verbatim>\<open>forward\<close> returns.
\<close>

type_synonym ('w, 'o) script_torch =
  "('w LSTMClassifier, 'o, real list list, real list option list) torch"

definition with_forward ::
  "('w, 'o) script_torch \<Rightarrow> ('w, 'o) torch_init \<Rightarrow> ('w, 'o) script_torch" where
  "with_forward T F = T\<lparr>call := forward (call_LSTM F)\<rparr>"

text \<open>
  The variables of the driver that change from run to run: the namespace \<^verbatim>\<open>args\<close> (the
  loops assign to it), the file system, the count of loader iterations, \<^verbatim>\<open>steps\<close>,
  \<^verbatim>\<open>max_perf\<close> and \<^verbatim>\<open>best_args\<close>. \<open>trained\<close> records every call of \<^verbatim>\<open>train\<close> that returned:
  the namespace it was given, the model that was built for it, and the value it returned.
\<close>

record 'w main_state =
  cur_args :: args
  files :: filesystem
  loader_iterations :: nat
  steps :: nat
  max_perf :: real
  best_args :: "py_value list"
  trained :: "(args \<times> 'w LSTMClassifier \<times> real) list"

text \<open>
  The body of the innermost loop:
  \<^verbatim>\<open>
                  args.batch_size = batch_size
                  args.lr = lr
                  args.hidden_size = hidden_size
                  train_loader = DataLoader(dataset=train_dataset, batch_size=args.batch_size,
                                            shuffle=True, num_workers=3)
                  val_loader = DataLoader(dataset=val_dataset, batch_size=args.batch_size,
                                          shuffle=True, num_workers=3) \
                               if not args.test_on_train else train_loader
                  model = LSTMClassifier(input_size=11,
                                         seq_size=args.cap_len,
                                         h_size=args.hidden_size,
                                         n_lstm_layers=args.num_lstm_layers,
                                         n_linear_layers_hidden=args.num_linear_layers - 1,
                                         dropout=args.dropout)
                  optimizer = torch.optim.Adam(model.parameters(), lr=args.lr)
                  perf = train(args, model, optimizer, train_loader, val_loader, baseline_acc)
                  steps += 1
                  if perf > max_perf:
                      max_perf = perf
                      best_args = [lr, batch_size, hidden_size]
  \<close>
  The call of \<^verbatim>\<open>LSTMClassifier\<close> does not pass \<^verbatim>\<open>n_classes\<close>, which takes its default.
\<close>

definition grid_body ::
  "('w, 'o) script_torch \<Rightarrow> ('w, 'o) torch_init \<Rightarrow>
   (real list list) SeqDataset \<Rightarrow> (real list list) SeqDataset \<Rightarrow> pyfloat \<Rightarrow>
   real \<Rightarrow> int \<Rightarrow> nat \<Rightarrow> 'w main_state \<Rightarrow> py_error + 'w main_state" where
  "grid_body T F train_dataset val_dataset baseline_acc lr' batch_size' hidden_size' st =
     (let a = (cur_args st)\<lparr>batch_size := batch_size', lr := lr', hidden_size := hidden_size'\<rparr>
      in case DataLoader_new train_dataset (batch_size a) True of
           Inl e \<Rightarrow> Inl e
         | Inr train_loader \<Rightarrow>
             (case (if test_on_train a = 0 then DataLoader_new val_dataset (batch_size a) True
                    else Inr train_loader) of
                Inl e \<Rightarrow> Inl e
              | Inr val_loader \<Rightarrow>
                  (let model' = LSTMClassifier_init (lstm_init F (steps st))
                                  (linear_w F (steps st)) (linear_b F (steps st))
                                  11 (cap_len a) (hidden_size a) n_classes_default
                                  (num_lstm_layers a) (num_linear_layers a - 1) (dropout a);
                       optimizer = Adam F model' (lr a)
                   in case train (with_forward T F) a model' optimizer train_loader
                             (Some val_loader) baseline_acc (files st, loader_iterations st) of
                        Inl e \<Rightarrow> Inl e
                      | Inr (perf, s, fs') \<Rightarrow>
                          (let st = st\<lparr>cur_args := a,
                                       files := fs',
                                       loader_iterations := rng s,
                                       steps := steps st + 1,
                                       trained := trained st @ [(a, model', perf)]\<rparr>
                           in Inr (if perf > max_perf st
                                   then st\<lparr>max_perf := perf,
                                           best_args := [PyFloat lr', PyInt batch_size',
                                                         PyInt (int hidden_size')]\<rparr>
                                   else st)))))"

text \<open>
  The script from the point where the raw datasets are at hand (\<^verbatim>\<open>full_dataset['train']\<close>
  and \<^verbatim>\<open>full_dataset['val']\<close>, built by a module that is not part of the sources):
  \<^verbatim>\<open>
      val_dataset = full_dataset['val']
      if args.debug:
          train_dataset = val_dataset
      else:
          train_dataset = full_dataset['train']
      train_dataset = seq_data_to_dataset(train_dataset, cap_len=args.cap_len,
                                          num_features=11, standardize=True)
      val_dataset = seq_data_to_dataset(val_dataset, cap_len=args.cap_len,
                                        num_features=11, standardize=True)
      train_loader = DataLoader(dataset=train_dataset, batch_size=args.batch_size, shuffle=True)
      val_loader = DataLoader(dataset=val_dataset, batch_size=args.batch_size,
                              shuffle=True) if not args.test_on_train else train_loader
      baseline_acc = (the baseline accuracy)
      (the three lists)
      steps = 0
      total_steps = len(lrs) * len(batch_sizes) * len(hidden_sizes)
      max_perf = 0.
      best_args = []
      for lr in lrs:
          for batch_size in batch_sizes:
              for hidden_size in hidden_sizes:
                  (the body above)
  \<close>
  The result is the final state of the driver with \<^verbatim>\<open>total_steps\<close>.
\<close>

definition main ::
  "('w, 'o) script_torch \<Rightarrow> ('w, 'o) torch_init \<Rightarrow>
   (('s \<times> int list) list \<Rightarrow> nat \<Rightarrow> nat \<Rightarrow> 'r \<times> nat set) \<Rightarrow>
   ('r \<Rightarrow> bool \<Rightarrow> real list list list) \<Rightarrow>
   args \<Rightarrow> ('s \<times> int list) list \<Rightarrow> ('s \<times> int list) list \<Rightarrow> filesystem \<times> nat \<Rightarrow>
   py_error + 'w main_state \<times> nat" where
  "main T F preprocess_sequences_to_fixed_len standardize_and_turn_tensor
        a full_train full_val world =
     (case world of (fs0, rng0) \<Rightarrow>
      (let val_dataset = full_val;
           train_dataset = (if debug a \<noteq> 0 then val_dataset else full_train)
       in case seq_data_to_dataset preprocess_sequences_to_fixed_len
                 standardize_and_turn_tensor train_dataset (cap_len a) 11 True of
            Inl e \<Rightarrow> Inl e
          | Inr train_dataset \<Rightarrow>
       (case seq_data_to_dataset preprocess_sequences_to_fixed_len
                 standardize_and_turn_tensor val_dataset (cap_len a) 11 True of
            Inl e \<Rightarrow> Inl e
          | Inr val_dataset \<Rightarrow>
       (case DataLoader_new train_dataset (batch_size a) True of
            Inl e \<Rightarrow> Inl e
          | Inr train_loader \<Rightarrow>
       (case (if test_on_train a = 0 then DataLoader_new val_dataset (batch_size a) True
              else Inr train_loader) of
            Inl e \<Rightarrow> Inl e
          | Inr val_loader \<Rightarrow>
       (let baseline_acc = baseline_accuracy train_dataset;
            total_steps = length lrs * length batch_sizes * length hidden_sizes;
            st = \<lparr>cur_args = a, files = fs0, loader_iterations = rng0,
                  steps = 0, max_perf = 0, best_args = [], trained = []\<rparr>
        in case for_each
                  (\<lambda>lr'. for_each
                     (\<lambda>batch_size'. for_each
                        (\<lambda>hidden_size'. grid_body T F train_dataset val_dataset baseline_acc
                                           lr' batch_size' hidden_size')
                        hidden_sizes)
                     batch_sizes)
                  lrs st of
             Inl e \<Rightarrow> Inl e
           | Inr st \<Rightarrow> Inr (st, total_steps)))))))"

section \<open>Notions used to state the properties\<close>

text \<open>
  What the list of events of a run says: the optimisation steps (step counter and loss)
  and the evaluations (step counter, accuracy, \<^verbatim>\<open>max_running_mean\<close>), each in order.
\<close>

fun train_steps :: "event list \<Rightarrow> (nat \<times> real) list" where
  "train_steps [] = []"
| "train_steps (Train_step g l # es) = (g, l) # train_steps es"
| "train_steps (Model_train # es) = train_steps es"
| "train_steps (Model_eval # es) = train_steps es"
| "train_steps (Evaluation g a m # es) = train_steps es"

fun evaluations :: "event list \<Rightarrow> (nat \<times> real \<times> real) list" where
  "evaluations [] = []"
| "evaluations (Evaluation g a m # es) = (g, a, m) # evaluations es"
| "evaluations (Model_train # es) = evaluations es"
| "evaluations (Model_eval # es) = evaluations es"
| "evaluations (Train_step g l # es) = evaluations es"

definition eval_steps :: "event list \<Rightarrow> nat list" where
  "eval_steps es = map (\<lambda>(g, a, m). g) (evaluations es)"

definition eval_accs :: "event list \<Rightarrow> real list" where
  "eval_accs es = map (\<lambda>(g, a, m). a) (evaluations es)"

definition eval_maxes :: "event list \<Rightarrow> real list" where
  "eval_maxes es = map (\<lambda>(g, a, m). m) (evaluations es)"

text \<open>
  The rolling window after the evaluations with accuracies \<open>accs\<close>: the last five entries
  of five zeros followed by \<open>accs\<close>. \<open>window_means accs\<close> lists the mean of the window
  after the first evaluation, after the second, and so on.
\<close>

definition window :: "real list \<Rightarrow> real list" where
  "window accs = drop (length accs) (replicate 5 0 @ accs)"

definition window_mean :: "real list \<Rightarrow> real" where
  "window_mean accs = sum_list (window accs) / 5"

definition window_means :: "real list \<Rightarrow> real list" where
  "window_means accs = map (\<lambda>k. window_mean (take (Suc k) accs)) [0..<length accs]"

text \<open>
  The accuracy of a model on a loader, when the iteration of the loader is the \<open>k\<close>-th that
  the program starts: the number of rows whose predicted class is their label, over the
  number of rows.
\<close>

definition accuracy_on ::
  "('m, 'o, 'x, 'l) torch \<Rightarrow> 'x DataLoader \<Rightarrow> nat \<Rightarrow> 'm \<Rightarrow> real \<Rightarrow> bool" where
  "accuracy_on T loader k m acc =
     (case iter_DataLoader (randperm T) k loader of
        Inl e \<Rightarrow> False
      | Inr batches \<Rightarrow>
          (case for_each (test_batch T m) batches (0, 0) of
             Inl e \<Rightarrow> False
           | Inr (correct, n_samples) \<Rightarrow> n_samples \<noteq> 0 \<and> acc = correct / real n_samples))"

text \<open>
  The course of a run of \<^verbatim>\<open>train\<close> on a training loader and a validation loader, from the
  model \<open>model0\<close>, up to a point where the step counter is \<open>g\<close>, the model is \<open>m\<close> and the
  events so far are \<open>es\<close>. An epoch begins with \<^verbatim>\<open>model.train()\<close>. An optimisation step
  takes a batch of the training loader, logs the mean-reduced cross-entropy of the logits
  of the model on that batch, and leaves the model that the optimizer's step for that
  loss gives. A step that brings the counter to a value that is not a multiple of 5 is
  followed by no evaluation. One that brings it to a multiple of 5 is followed at once by
  \<^verbatim>\<open>model.eval()\<close>, the evaluation of the model in that mode on the validation loader, at
  that value of the counter, and \<^verbatim>\<open>model.train()\<close>, which gives the model that goes on.
\<close>

inductive schedule ::
  "('m, 'o, 'x, 'l) torch \<Rightarrow> 'x DataLoader \<Rightarrow> 'x DataLoader option \<Rightarrow> 'm \<Rightarrow>
   nat \<Rightarrow> 'm \<Rightarrow> event list \<Rightarrow> bool"
  for T :: "('m, 'o, 'x, 'l) torch" and train_loader :: "'x DataLoader"
    and test_loader :: "'x DataLoader option" and model0 :: 'm where
  start: "schedule T train_loader test_loader model0 0 model0 []"
| epoch:
    "schedule T train_loader test_loader model0 g m es \<Longrightarrow>
     schedule T train_loader test_loader model0 g (model_train T m) (es @ [Model_train])"
| step:
    "schedule T train_loader test_loader model0 g m es \<Longrightarrow> Suc g mod 5 \<noteq> 0 \<Longrightarrow>
     iter_DataLoader (randperm T) j train_loader = Inr batches \<Longrightarrow> batch \<in> set batches \<Longrightarrow>
     call T m (sequence batch) = Inr logits \<Longrightarrow>
     apply_loss T (CrossEntropyLoss Mean) logits (label batch) = Inr l \<Longrightarrow>
     m' = snd (backward_step T (CrossEntropyLoss Mean) opt m (sequence batch) (label batch)) \<Longrightarrow>
     schedule T train_loader test_loader model0 (Suc g) m' (es @ [Train_step g l])"
| step_eval:
    "schedule T train_loader test_loader model0 g m es \<Longrightarrow> Suc g mod 5 = 0 \<Longrightarrow>
     iter_DataLoader (randperm T) j train_loader = Inr batches \<Longrightarrow> batch \<in> set batches \<Longrightarrow>
     call T m (sequence batch) = Inr logits \<Longrightarrow>
     apply_loss T (CrossEntropyLoss Mean) logits (label batch) = Inr l \<Longrightarrow>
     m' = snd (backward_step T (CrossEntropyLoss Mean) opt m (sequence batch) (label batch)) \<Longrightarrow>
     test_loader = Some loader \<Longrightarrow> accuracy_on T loader k (model_eval T m') acc \<Longrightarrow>
     schedule T train_loader test_loader model0 (Suc g) (model_train T (model_eval T m'))
       (es @ [Train_step g l, Model_eval, Evaluation (Suc g) acc mx, Model_train])"

text \<open>
  The paths of the directories and of the checkpoint of a run. A plain name is what
  \<^verbatim>\<open>exp_name\<close> is meant to be: a name that the system accepts for an entry of a directory.
\<close>

definition log_dir_of :: "args \<Rightarrow> string" where
  "log_dir_of a = os_path_join ''logs'' (exp_name a)"

definition checkpoint_dir_of :: "args \<Rightarrow> string" where
  "checkpoint_dir_of a = os_path_join ''checkpoints'' (exp_name a)"

definition checkpoint_path_of :: "args \<Rightarrow> string" where
  "checkpoint_path_of a = os_path_join (checkpoint_dir_of a) ''model.pt''"

definition plain_name :: "string \<Rightarrow> bool" where
  "plain_name n =
     (n \<noteq> [] \<and> n \<noteq> ''.'' \<and> n \<noteq> ''..'' \<and> sep \<notin> set n \<and> CHR 0x00 \<notin> set n
      \<and> length n \<le> NAME_MAX)"

text \<open>
  The kind of a node, a regular file (\<open>False\<close>) or a directory (\<open>True\<close>), and the kind of
  what is at a place of the tree, if anything is there.
\<close>

definition is_dir_node :: "node \<Rightarrow> bool" where
  "is_dir_node n = (case n of File \<Rightarrow> False | Dir entries \<Rightarrow> True)"

definition kind_at :: "filesystem \<Rightarrow> string list \<Rightarrow> bool option" where
  "kind_at fs q = map_option is_dir_node (lookup q (fs_root fs))"

text \<open>
  A model whose head ends with a linear layer of two outputs.
\<close>

fun is_binary_linear :: "layer \<Rightarrow> bool" where
  "is_binary_linear (Linear n_in n_out W b) = (n_out = 2 \<and> length W = 2 \<and> length b = 2)"
| "is_binary_linear ReLU = False"

definition binary_head :: "'w LSTMClassifier \<Rightarrow> bool" where
  "binary_head m = (linear m \<noteq> [] \<and> is_binary_linear (last (linear m)))"

text \<open>
  The invariant of the loops of \<^verbatim>\<open>train\<close> about the window: \<^verbatim>\<open>accuracies\<close> is the window of
  the evaluations made so far, every accuracy lies between 0 and 1, and
  \<^verbatim>\<open>max_running_mean\<close>, now and at each evaluation, is the largest of 0 and the window
  means up to that point.
\<close>

definition window_invariant :: "('m, 'o) train_state \<Rightarrow> bool" where
  "window_invariant s =
     (accuracies s = window (eval_accs (events s))
      \<and> (\<forall>a \<in> set (eval_accs (events s)). 0 \<le> a \<and> a \<le> 1)
      \<and> max_running_mean s = Max (set (0 # window_means (eval_accs (events s))))
      \<and> (\<forall>k < length (eval_accs (events s)).
            eval_maxes (events s) ! k
            = Max (set (0 # take (Suc k) (window_means (eval_accs (events s)))))))"

section \<open>An example run\<close>

text \<open>
  A small instance on which the statements below are checked. A model is the number of
  optimisation steps it has made, with its mode (\<open>True\<close> in training mode). Its logits
  favour the right class of a row once it has made ten steps and is in evaluation mode,
  and class 1 otherwise; the right class is 0 for the rows 1 and 4 and 1 for the others.
  The mean-reduced cross-entropy is 1 on every batch, and the other losses of the
  framework have other values. The training loader has five examples in batches of one
  and does not shuffle; the validation loader has four examples in batches of two, in a
  shuffled order. The run has two epochs and starts in an empty working directory.
\<close>

definition example_torch :: "(nat \<times> bool, unit, nat, real list list) torch" where
  "example_torch =
     \<lparr>call = (\<lambda>m xs. Inr (map (\<lambda>x. if 10 \<le> fst m \<and> \<not> snd m \<and> (x = 1 \<or> x = 4)
                                     then [1, 0] else [0, 1]) xs)),
      apply_loss = (\<lambda>l logits ys. Inr (case l of CrossEntropyLoss Mean \<Rightarrow> 1
                                         | CrossEntropyLoss r \<Rightarrow> 2 | _ \<Rightarrow> 3)),
      backward_step = (\<lambda>l opt m xs ys. (opt, (Suc (fst m), snd m))),
      max_dim1 = (\<lambda>logits. Inr (map (\<lambda>row. if row ! 0 < row ! 1 then 1 else 0) logits)),
      model_train = (\<lambda>m. (fst m, True)),
      model_eval = (\<lambda>m. (fst m, False)),
      randperm = (\<lambda>k n. rev [0..<n]),
      event_file = ''events.out.tfevents''\<rparr>"

definition example_args :: args where
  "example_args =
     \<lparr>lr = 1 / 100, num_epochs = 2, num_lstm_layers = 2, num_linear_layers = 1,
      hidden_size = 12, dropout = 1 / 2, batch_size = 1, debug = 1, test_on_train = 1,
      verbose = 0, cap_len = 40, exp_name = ''LSTM_default''\<rparr>"

definition example_loader :: "nat DataLoader" where
  "example_loader = DataLoader \<lparr>X = [0, 1, 2, 3, 4], Y = [1, 0, 1, 1, 0]\<rparr> 1 False"

definition example_test_loader :: "nat DataLoader" where
  "example_test_loader = DataLoader \<lparr>X = [0, 1, 2, 3], Y = [1, 0, 1, 0]\<rparr> 2 True"

definition example_fs :: filesystem where
  "example_fs = \<lparr>fs_root = Dir [(''work'', Dir [])], fs_cwd = [''work'']\<rparr>"

text \<open>
  The same dataset for the whole script: five raw examples of one label each, whose
  sequences have one time step of eleven features, a preprocessing that removes nothing,
  and five epochs (so that every run makes five steps and one evaluation). The LSTM layer
  of the example gives, at every time step, a hidden state filled with the first feature;
  the head adds the hidden state up for class 0 and has the bias 30 for class 1. So a model
  predicts the right class when its hidden size is at least 48, and class 1 for every row
  otherwise. The optimizer of the example is its learning rate.
\<close>

definition example_main_torch :: "(unit, real) script_torch" where
  "example_main_torch =
     \<lparr>call = (\<lambda>m xs. Inl TypeError),
      apply_loss = (\<lambda>l logits ys. Inr (case l of CrossEntropyLoss Mean \<Rightarrow> 1
                                         | CrossEntropyLoss r \<Rightarrow> 2 | _ \<Rightarrow> 3)),
      backward_step = (\<lambda>l opt m xs ys. (opt, m)),
      max_dim1 = (\<lambda>logits. Inr (map (\<lambda>row. case row of
                                               Some [a, b] \<Rightarrow> if a < b then 1 else 0
                                             | _ \<Rightarrow> 0) logits)),
      model_train = (\<lambda>m. m),
      model_eval = (\<lambda>m. m),
      randperm = (\<lambda>k n. rev [0..<n]),
      event_file = ''events.out.tfevents''\<rparr>"

definition example_init :: "(unit, real) torch_init" where
  "example_init =
     \<lparr>lstm_init = (\<lambda>k. ()),
      linear_w = (\<lambda>k i r c. if r = 0 then 1 else 0),
      linear_b = (\<lambda>k i r. if r = 0 then 0 else 30),
      Adam = (\<lambda>m l. l),
      call_LSTM = (\<lambda>l seq. Inr (map (map (\<lambda>v. replicate (lstm_hidden_size l) (v ! 0))) seq,
                                [], []))\<rparr>"

definition example_seq_data :: "(real list list \<times> int list) list" where
  "example_seq_data =
     [([[0, 0, 0, 0, 0, 0, 0, 0, 0, 0, 0]], [1]),
      ([[1, 0, 0, 0, 0, 0, 0, 0, 0, 0, 0]], [0]),
      ([[0, 0, 0, 0, 0, 0, 0, 0, 0, 0, 0]], [1]),
      ([[0, 0, 0, 0, 0, 0, 0, 0, 0, 0, 0]], [1]),
      ([[1, 0, 0, 0, 0, 0, 0, 0, 0, 0, 0]], [0])]"

definition example_main_args :: args where
  "example_main_args = example_args\<lparr>num_epochs := 5, batch_size := 32\<rparr>"

text \<open>
  The update of \<^verbatim>\<open>max_perf\<close> and \<^verbatim>\<open>best_args\<close> by one run, and its result over a list of
  runs, each given by the value \<^verbatim>\<open>train\<close> returned and the list of its hyperparameters.
\<close>

definition keep_best :: "real \<times> py_value list \<Rightarrow> real \<times> py_value list \<Rightarrow> real \<times> py_value list" where
  "keep_best best run = (if fst run > fst best then run else best)"

definition best_so_far :: "(real \<times> py_value list) list \<Rightarrow> real \<times> py_value list" where
  "best_so_far runs = foldl keep_best (0, []) runs"

text \<open>What the record of a run says: its hyperparameters and the value returned.\<close>

definition run_key :: "args \<times> 'w LSTMClassifier \<times> real \<Rightarrow> real \<times> int \<times> nat" where
  "run_key r = (case r of (a, m, p) \<Rightarrow> (lr a, batch_size a, hidden_size a))"

definition run_perf :: "args \<times> 'w LSTMClassifier \<times> real \<Rightarrow> real" where
  "run_perf r = (case r of (a, m, p) \<Rightarrow> p)"

definition run_model :: "args \<times> 'w LSTMClassifier \<times> real \<Rightarrow> 'w LSTMClassifier" where
  "run_model r = (case r of (a, m, p) \<Rightarrow> m)"

definition run_args :: "args \<times> 'w LSTMClassifier \<times> real \<Rightarrow> py_value list" where
  "run_args r = (case r of (a, m, p) \<Rightarrow>
                   [PyFloat (lr a), PyInt (batch_size a), PyInt (int (hidden_size a))])"

definition example_main :: "py_error + unit main_state \<times> nat" where
  "example_main =
     main example_main_torch example_init (\<lambda>sd c n. (map fst sd, {})) (\<lambda>X s. X)
       example_main_args example_seq_data example_seq_data (example_fs, 0)"

text \<open>
  The combinations of the three lists in the order in which three nested loops, the one over
  \<^verbatim>\<open>lrs\<close> outermost and the one over \<^verbatim>\<open>hidden_sizes\<close> innermost, go through them.
\<close>

definition grid :: "(real \<times> int \<times> nat) list" where
  "grid = concat (map (\<lambda>x. concat (map (\<lambda>y. map (\<lambda>z. (x, y, z)) hidden_sizes) batch_sizes)) lrs)"

subsection \<open>Properties of \<open>batched\<close>\<close>

lemma batched_Nil [simp]: "batched b [] = []"
  by (simp add: batched.simps)

lemma batched_zero [simp]: "batched 0 xs = []"
  by (simp add: batched.simps)

lemma batched_step:
  "0 < b \<Longrightarrow> xs \<noteq> [] \<Longrightarrow> batched b xs = take b xs # batched b (drop b xs)"
  by (subst batched.simps) simp

lemma concat_batched: "0 < b \<Longrightarrow> concat (batched b xs) = xs"
proof (induction b xs rule: batched.induct)
  case (1 b xs)
  show ?case
  proof (cases "xs = []")
    case True
    then show ?thesis by simp
  next
    case False
    with 1 show ?thesis by (simp add: batched_step)
  qed
qed

lemma ceil_nat_div:
  assumes "0 < (b::nat)"
  shows "(n + b - 1) div b = (if n mod b = 0 then n div b else Suc (n div b))"
proof -
  define q r where "q = n div b" and "r = n mod b"
  have n: "n = b * q + r" and r: "r < b" using assms by (simp_all add: q_def r_def)
  show ?thesis
  proof (cases "r = 0")
    case True
    have "(n + b - 1) div b = q"
      using n True assms by (intro div_nat_eqI) simp_all
    then show ?thesis using True by (simp add: q_def r_def)
  next
    case False
    have "(n + b - 1) div b = Suc q"
      using n False r assms by (intro div_nat_eqI) simp_all
    then show ?thesis using False by (simp add: q_def r_def)
  qed
qed

lemma length_batched: "0 < b \<Longrightarrow> length (batched b xs) = (length xs + b - 1) div b"
proof (induction b xs rule: batched.induct)
  case (1 b xs)
  show ?case
  proof (cases "xs = []")
    case True
    then show ?thesis using 1(2) by simp
  next
    case False
    then have pos: "0 < length xs" by simp
    have ih: "length (batched b (drop b xs)) = (length xs - b + b - 1) div b"
      using 1 False by simp
    show ?thesis
    proof (cases "b \<le> length xs")
      case True
      have "length xs + b - 1 = (length xs - 1) + b" using False by (cases xs) simp_all
      then have "(length xs + b - 1) div b = Suc ((length xs - 1) div b)"
        using 1(2) by (simp only: div_add_self2)
      moreover have "(length xs - b + b - 1) div b = (length xs - 1) div b"
        using True by simp
      ultimately show ?thesis using False 1(2) ih by (simp add: batched_step)
    next
      case False
      then have lt: "length xs < b" by simp
      obtain m where m: "length xs = Suc m" using \<open>xs \<noteq> []\<close> by (cases xs) auto
      have "(length xs + b - 1) div b = 1"
        using lt unfolding m by (intro div_nat_eqI) simp_all
      then show ?thesis using \<open>xs \<noteq> []\<close> 1(2) lt by (simp add: batched_step)
    qed
  qed
qed

lemma nth_batched:
  "0 < b \<Longrightarrow> i < length (batched b xs) \<Longrightarrow> batched b xs ! i = take b (drop (i * b) xs)"
proof (induction b xs arbitrary: i rule: batched.induct)
  case (1 b xs)
  have ne: "xs \<noteq> []" using 1(3) by (cases "xs = []") simp_all
  show ?case
  proof (cases i)
    case 0
    then show ?thesis using ne 1(2) by (simp add: batched_step)
  next
    case (Suc j)
    then have "j < length (batched b (drop b xs))"
      using 1(3) ne 1(2) by (simp add: batched_step)
    then have "batched b (drop b xs) ! j = take b (drop (j * b) (drop b xs))"
      using 1(1)[of j] ne 1(2) by simp
    then show ?thesis using Suc ne 1(2) by (simp add: batched_step add.commute)
  qed
qed

lemma batched_nonempty: "ys \<in> set (batched b xs) \<Longrightarrow> ys \<noteq> [] \<and> length ys \<le> b"
proof (induction b xs rule: batched.induct)
  case (1 b xs)
  show ?case
  proof (cases "b = 0 \<or> xs = []")
    case True
    then show ?thesis using 1(2) by auto
  next
    case False
    then have "ys = take b xs \<or> ys \<in> set (batched b (drop b xs))"
      using 1(2) by (simp add: batched_step)
    then show ?thesis using 1(1) False by auto
  qed
qed

lemma batched_full:
  assumes "0 < b" "Suc i < length (batched b xs)"
  shows "length (batched b xs ! i) = b"
proof -
  have "Suc i < (length xs + b - 1) div b"
    using assms by (simp add: length_batched)
  then have "Suc (Suc i) \<le> (length xs + b - 1) div b" by simp
  then have "Suc (Suc i) * b \<le> length xs + b - 1"
    using assms(1) by (simp only: less_eq_div_iff_mult_less_eq)
  then have "b + i * b \<le> length xs" using assms(1) by simp
  moreover have "batched b xs ! i = take b (drop (i * b) xs)"
    using assms by (simp add: nth_batched)
  ultimately show ?thesis by simp
qed

subsection \<open>The loop yields the batches\<close>

lemma py_slice_nonneg:
  assumes "0 \<le> lo" "lo \<le> hi"
  shows "py_slice xs lo hi = take (nat (hi - lo)) (drop (nat lo) xs)"
proof -
  have lo: "slice_bound (length xs) lo = min (length xs) (nat lo)"
    and hi: "slice_bound (length xs) hi = min (length xs) (nat hi)"
    using assms by (simp_all add: slice_bound_def)
  show ?thesis
  proof (cases "nat lo \<le> length xs")
    case True
    have "take (min (length xs) (nat hi) - nat lo) (drop (nat lo) xs)
          = take (nat (hi - lo)) (drop (nat lo) xs)"
      using True assms by (cases "nat hi \<le> length xs") (simp_all add: nat_diff_distrib)
    then show ?thesis using True by (simp add: py_slice_def lo hi min_absorb2)
  next
    case False
    then show ?thesis by (simp add: py_slice_def lo hi)
  qed
qed

lemma dataset_loop_batched:
  assumes "1 \<le> b" "0 \<le> c"
  shows "dataset_loop ds b (int (length ds)) c = Some (batched (nat b) (drop (nat c) ds))"
  using assms
proof (induction "length ds - nat c" arbitrary: c rule: less_induct)
  case less
  show ?case
  proof (cases "c < int (length ds)")
    case False
    then have "drop (nat c) ds = []" using less.prems by simp
    then show ?thesis using False
      by (subst dataset_loop.simps) simp
  next
    case True
    have lt: "length ds - nat (c + b) < length ds - nat c"
      using True less.prems by linarith
    have ih: "dataset_loop ds b (int (length ds)) (c + b)
              = Some (batched (nat b) (drop (nat (c + b)) ds))"
      using less.hyps[OF lt] less.prems by simp
    have ne: "drop (nat c) ds \<noteq> []" using True less.prems by simp
    have sl: "py_slice ds c (c + b) = take (nat b) (drop (nat c) ds)"
      using less.prems py_slice_nonneg[of c "c + b" ds] by simp
    have unf: "batched (nat b) (drop (nat c) ds)
               = take (nat b) (drop (nat c) ds) # batched (nat b) (drop (nat (c + b)) ds)"
      using ne less.prems by (subst batched.simps) (simp add: nat_add_distrib add.commute)
    show ?thesis
      by (subst dataset_loop.simps) (simp add: True ih sl unf)
  qed
qed

lemma ceiling_div_nat:
  assumes "0 < b"
  shows "\<lceil>real n / real b\<rceil> = int ((n + b - 1) div b)"
proof -
  have "\<lceil>real n / real b\<rceil> = \<lceil>real_of_int (int n) / real_of_int (int b)\<rceil>" by simp
  also have "\<dots> = - (- int n div int b)" by (rule ceiling_divide_eq_div)
  also have "\<dots> = (if int n mod int b = 0 then int n div int b else int n div int b + 1)"
    using assms by (simp add: zdiv_zminus1_eq_if)
  also have "\<dots> = int (if n mod b = 0 then n div b else Suc (n div b))"
    by (simp flip: of_nat_mod of_nat_div)
  finally show ?thesis using assms by (simp only: ceil_nat_div)
qed

text \<open>
  Claim C8. For every dataset of length \<open>n\<close> and every \<open>batch_size \<ge> 1\<close> the generator
  stops after yielding exactly \<open>\<lceil>n / batch_size\<rceil>\<close> batches. The \<open>i\<close>-th batch is the
  contiguous slice of \<open>batch_size\<close> elements starting at \<open>i * batch_size\<close> of the dataset
  (shuffled first when \<open>shuffle\<close> is set), no batch is longer than \<open>batch_size\<close>, every
  batch but the last has exactly \<open>batch_size\<close> elements, and the batches concatenated in
  order give the (shuffled) dataset back, so that they hold the elements of the dataset,
  each exactly once. \<^verbatim>\<open>random.shuffle\<close> rearranges a list: that is the hypothesis on
  \<open>random_shuffle\<close>.
\<close>

theorem dataset_iterator_batches:
  assumes "1 \<le> batch_sz"
    and "mset (random_shuffle dataset) = mset dataset"
  shows "\<exists>bs. dataset_iterator random_shuffle dataset batch_sz shuffle
               = (Some bs, if shuffle then random_shuffle dataset else dataset)
          \<and> int (length bs) = \<lceil>real (length dataset) / real_of_int batch_sz\<rceil>
          \<and> (\<forall>i < length bs.
                 bs ! i = take (nat batch_sz)
                            (drop (i * nat batch_sz)
                               (if shuffle then random_shuffle dataset else dataset))
               \<and> int (length (bs ! i)) \<le> batch_sz
               \<and> (Suc i < length bs \<longrightarrow> int (length (bs ! i)) = batch_sz))
          \<and> concat bs = (if shuffle then random_shuffle dataset else dataset)
          \<and> mset (concat bs) = mset dataset"
proof -
  define ds where "ds = (if shuffle then random_shuffle dataset else dataset)"
  define b where "b = nat batch_sz"
  define bs where "bs = batched b ds"
  have b: "0 < b" "int b = batch_sz" using assms(1) by (simp_all add: b_def)
  have len_ds: "length ds = length dataset"
    using assms(2) by (auto simp: ds_def dest: mset_eq_length)
  have mset_ds: "mset ds = mset dataset"
    using assms(2) by (simp add: ds_def)
  have run: "dataset_iterator random_shuffle dataset batch_sz shuffle = (Some bs, ds)"
    using dataset_loop_batched[of batch_sz 0 ds] assms(1)
    by (simp add: dataset_iterator_def Let_def ds_def bs_def b_def)
  have count: "int (length bs) = \<lceil>real (length dataset) / real_of_int batch_sz\<rceil>"
    using ceiling_div_nat[OF b(1), of "length ds"] b len_ds
    by (simp add: bs_def length_batched flip: b(2))
  have each: "bs ! i = take b (drop (i * b) ds) \<and> int (length (bs ! i)) \<le> batch_sz
              \<and> (Suc i < length bs \<longrightarrow> int (length (bs ! i)) = batch_sz)"
    if "i < length bs" for i
  proof -
    have "bs ! i = take b (drop (i * b) ds)"
      using that b(1) by (simp add: bs_def nth_batched)
    moreover have "length (bs ! i) \<le> b"
      using that batched_nonempty[of "bs ! i" b ds] by (simp add: bs_def)
    moreover have "length (bs ! i) = b" if "Suc i < length bs"
      using that b(1) batched_full[of b i ds] by (simp add: bs_def)
    ultimately show ?thesis using b(2) by auto
  qed
  have cat: "concat bs = ds" using b(1) by (simp add: bs_def concat_batched)
  have all: "\<forall>i < length bs. bs ! i = take b (drop (i * b) ds)
               \<and> int (length (bs ! i)) \<le> batch_sz
               \<and> (Suc i < length bs \<longrightarrow> int (length (bs ! i)) = batch_sz)"
    using each by blast
  have msc: "mset (concat bs) = mset dataset" using cat mset_ds by simp
  show ?thesis
    unfolding ds_def[symmetric] b_def[symmetric]
    using run count all cat msc by (intro exI[of _ bs] conjI) assumption+
qed

theorem dataset_iterator_batches_witness:
  "(1::int) \<le> 2 \<and> mset (rev [1, 2, 3, 4, 5 :: nat]) = mset [1, 2, 3, 4, 5]
   \<and> (\<exists>bs. dataset_iterator rev [1, 2, 3, 4, 5 :: nat] 2 True = (Some bs, [5, 4, 3, 2, 1])
          \<and> length bs = 3 \<and> bs ! 0 = [5, 4] \<and> bs ! 1 = [3, 2] \<and> bs ! 2 = [1]
          \<and> concat bs = [5, 4, 3, 2, 1])"
proof -
  have h1: "(1::int) \<le> 2" by simp
  have h2: "mset (rev [1, 2, 3, 4, 5 :: nat]) = mset [1, 2, 3, 4, 5]" by simp
  obtain bs where bs:
    "dataset_iterator rev [1, 2, 3, 4, 5 :: nat] 2 True = (Some bs, rev [1, 2, 3, 4, 5])"
    "int (length bs) = \<lceil>real (length [1, 2, 3, 4, 5 :: nat]) / real_of_int 2\<rceil>"
    "\<forall>i < length bs. bs ! i = take (nat 2) (drop (i * nat 2) (rev [1, 2, 3, 4, 5]))"
    "concat bs = rev [1, 2, 3, 4, 5]"
    using dataset_iterator_batches[of 2 rev "[1, 2, 3, 4, 5 :: nat]" True] h1 h2 by auto
  have "\<lceil>(5::real) / 2\<rceil> = 3" by (simp add: ceiling_eq_iff)
  then have len: "length bs = 3" using bs(2) by simp
  have "bs ! 0 = [5, 4]" "bs ! 1 = [3, 2]" "bs ! 2 = [1]"
    using bs(3) len by (simp_all add: numeral_2_eq_2)
  then show ?thesis using h1 bs(1,4) len by auto
qed

section \<open>Properties of \<^verbatim>\<open>seq_data_to_dataset\<close> and of the baseline\<close>






subsection \<open>Rounding to a binary format\<close>

lemma two_powi_Suc: "(2::real) powi (e + 1) = 2 * 2 powi e"
  by (simp add: power_int_add)

lemma two_powi_pred: "(2::real) powi (e - 1) = 2 powi e / 2"
  by (simp add: power_int_diff)

lemma binary_exponent_bounds:
  assumes "2 powi (- int n) \<le> a" and "a < 2 powi (int n + 1)"
  shows "2 powi (binary_exponent n a) \<le> a \<and> a < 2 powi (binary_exponent n a + 1)
         \<and> - int n \<le> binary_exponent n a \<and> binary_exponent n a \<le> int n"
  using assms
proof (induction n arbitrary: a)
  case 0
  then show ?case by simp
next
  case (Suc n)
  have small: "(2::real) powi (- int n) \<le> 1"
    by (simp add: power_int_minus_divide)
  have big: "(1::real) \<le> 2 powi int n" by simp
  have up: "(2::real) powi (int (Suc n) + 1) = 2 * 2 powi (int n + 1)"
  proof -
    have "int (Suc n) + 1 = int n + 1 + 1" by simp
    then show ?thesis by (simp only: two_powi_Suc)
  qed
  have down: "(2::real) powi (- int (Suc n)) = 2 powi (- int n) / 2"
  proof -
    have "- int (Suc n) = - int n - 1" by simp
    then show ?thesis by (simp only: two_powi_pred)
  qed
  show ?case
  proof (cases "2 \<le> a")
    case True
    define e where "e = binary_exponent n (a / 2)"
    have lo: "2 powi (- int n) \<le> a / 2" using True small by simp
    have hi: "a / 2 < 2 powi (int n + 1)" using Suc.prems(2) unfolding up by simp
    from Suc.IH[OF lo hi] have ih: "2 powi e \<le> a / 2" "a / 2 < 2 powi (e + 1)"
      "- int n \<le> e" "e \<le> int n"
      unfolding e_def by simp_all
    have val: "binary_exponent (Suc n) a = e + 1" using True by (simp add: e_def)
    have "2 powi (e + 1) \<le> a" unfolding two_powi_Suc using ih(1) by simp
    moreover have "a < 2 powi (e + 1 + 1)" unfolding two_powi_Suc[of "e + 1"] using ih(2) by simp
    ultimately show ?thesis unfolding val using ih(3,4) by simp
  next
    case False
    show ?thesis
    proof (cases "a < 1")
      case True
      define e where "e = binary_exponent n (2 * a)"
      have lo: "2 powi (- int n) \<le> 2 * a" using Suc.prems(1) unfolding down by simp
      have "(2::real) \<le> 2 powi (int n + 1)" unfolding two_powi_Suc using big by simp
      then have hi: "2 * a < 2 powi (int n + 1)" using True by simp
      from Suc.IH[OF lo hi] have ih: "2 powi e \<le> 2 * a" "2 * a < 2 powi (e + 1)"
        "- int n \<le> e" "e \<le> int n"
        unfolding e_def by simp_all
      have val: "binary_exponent (Suc n) a = e - 1" using True False by (simp add: e_def)
      have "2 powi (e - 1) \<le> a" unfolding two_powi_pred using ih(1) by simp
      moreover have "a < 2 powi (e - 1 + 1)" using ih(2) two_powi_Suc[of e] by simp
      ultimately show ?thesis unfolding val using ih(3,4) by simp
    next
      case False
      then show ?thesis using \<open>\<not> 2 \<le> a\<close> by simp
    qed
  qed
qed

lemma binary_exponent_large:
  assumes "2 powi (int n + 1) \<le> a"
  shows "binary_exponent n a = int n"
  using assms
proof (induction n arbitrary: a)
  case 0
  then show ?case by simp
next
  case (Suc n)
  have up: "(2::real) powi (int (Suc n) + 1) = 2 * 2 powi (int n + 1)"
  proof -
    have "int (Suc n) + 1 = int n + 1 + 1" by simp
    then show ?thesis by (simp only: two_powi_Suc)
  qed
  have "(1::real) \<le> 2 powi (int n + 1)"
    by (rule one_le_power_int) simp_all
  then have a2: "2 \<le> a" using Suc.prems unfolding up by linarith
  have "2 powi (int n + 1) \<le> a / 2" using Suc.prems unfolding up by simp
  from Suc.IH[OF this] show ?case using a2 by simp
qed

lemma binary_exponent_small:
  assumes "0 < a" and "a < 2 powi (- int n)"
  shows "binary_exponent n a \<le> - int n"
  using assms
proof (induction n arbitrary: a)
  case 0
  then show ?case by simp
next
  case (Suc n)
  have down: "(2::real) powi (- int (Suc n)) = 2 powi (- int n) / 2"
  proof -
    have "- int (Suc n) = - int n - 1" by simp
    then show ?thesis by (simp only: two_powi_pred)
  qed
  have lt: "2 * a < 2 powi (- int n)" using Suc.prems(2) unfolding down by simp
  have "(2::real) powi (- int n) \<le> 1" by (simp add: power_int_minus_divide)
  then have a1: "a < 1" "\<not> 2 \<le> a" using lt Suc.prems(1) by simp_all
  have "binary_exponent n (2 * a) \<le> - int n"
    using Suc.prems(1) lt by (intro Suc.IH) simp_all
  then show ?case using a1 by simp
qed

lemma round_half_even_error: "\<bar>of_int (round_half_even q) - q\<bar> \<le> 1 / 2"
  unfolding round_half_even_def Let_def
  by (auto simp: abs_if) linarith+

lemma round_half_even_of_int [simp]: "round_half_even (of_int k) = k"
  by (simp add: round_half_even_def)

lemma round_half_even_mono_int:
  assumes "of_int k \<le> q"
  shows "k \<le> round_half_even q"
proof -
  have "k \<le> \<lfloor>q\<rfloor>" using assms by (simp add: le_floor_iff)
  then show ?thesis unfolding round_half_even_def Let_def by auto
qed

lemma round_half_even_le_int:
  assumes "q \<le> of_int k"
  shows "round_half_even q \<le> k"
proof (cases "q = of_int k")
  case True
  then show ?thesis by simp
next
  case False
  then have "q < of_int k" using assms by simp
  then have "\<lfloor>q\<rfloor> < k" by (simp add: floor_less_iff)
  then show ?thesis unfolding round_half_even_def Let_def by auto
qed


lemma two_powi_less_exp: "(2::real) powi m < 2 powi n \<Longrightarrow> m < n"
  using power_int_increasing[of n m "2::real"] by (cases "m < n") simp_all

lemma two_powi_le_exp: "(2::real) powi m \<le> 2 powi n \<Longrightarrow> m \<le> n"
  using power_int_strict_increasing[of n m "2::real"] by (cases "m \<le> n") simp_all

lemma round_float_pos:
  assumes "0 < x"
  shows "round_float p emin emax x =
           (if emax < max emin (binary_exponent (nat (emax - emin)) x)
               \<or> (max emin (binary_exponent (nat (emax - emin)) x) = emax
                   \<and> round_half_even
                        (x / 2 powi (max emin (binary_exponent (nat (emax - emin)) x) - int p + 1))
                      = 2 ^ p)
            then PosInf
            else Finite (of_int (round_half_even
                   (x / 2 powi (max emin (binary_exponent (nat (emax - emin)) x) - int p + 1)))
                 * 2 powi (max emin (binary_exponent (nat (emax - emin)) x) - int p + 1)))"
proof -
  have a: "\<bar>x\<bar> = x" "(x = 0) = False" "(0 < x) = True" using assms by simp_all
  show ?thesis unfolding round_float_def Let_def a if_False if_True ..
qed

lemma float_exponent:
  assumes "0 < x" and "x < 2 powi (emax + 1)" and "emin \<le> 0" and "0 \<le> emax"
  defines "e \<equiv> max emin (binary_exponent (nat (emax - emin)) x)"
  shows "emin \<le> e" and "e \<le> emax" and "x < 2 powi (e + 1)" and "2 powi e \<le> x \<or> e = emin"
proof -
  define n where "n = nat (emax - emin)"
  define b where "b = binary_exponent n x"
  have n: "int n = emax - emin" using assms(3,4) by (simp add: n_def)
  have e: "e = max emin b" by (simp add: e_def b_def n_def)
  have hi: "x < 2 powi (int n + 1)"
  proof -
    have "(2::real) powi (emax + 1) \<le> 2 powi (int n + 1)"
      by (rule power_int_increasing) (use n assms(3) in simp_all)
    with assms(2) show ?thesis by simp
  qed
  show "emin \<le> e" by (simp add: e)
  have main: "e \<le> emax \<and> x < 2 powi (e + 1) \<and> (2 powi e \<le> x \<or> e = emin)"
  proof (cases "2 powi (- int n) \<le> x")
    case True
    from binary_exponent_bounds[OF True hi]
    have bb: "2 powi b \<le> x" "x < 2 powi (b + 1)" unfolding b_def by simp_all
    have "2 powi b < (2::real) powi (emax + 1)" using bb(1) assms(2) by simp
    then have "b < emax + 1" by (rule two_powi_less_exp)
    then have le: "b \<le> emax" by simp
    show ?thesis
    proof (cases "emin \<le> b")
      case True
      then have "e = b" by (simp add: e)
      then show ?thesis using bb le by simp
    next
      case False
      then have em: "e = emin" by (simp add: e)
      have "(2::real) powi (b + 1) \<le> 2 powi (emin + 1)"
        by (rule power_int_increasing) (use False in simp_all)
      then have "x < 2 powi (emin + 1)" using bb(2) by simp
      then show ?thesis using em assms(3,4) by simp
    qed
  next
    case False
    then have "x < 2 powi (- int n)" by simp
    from binary_exponent_small[OF assms(1) this] have "b \<le> - int n" by (simp add: b_def)
    then have "b \<le> emin" using n assms(4) by simp
    then have em: "e = emin" by (simp add: e)
    have "(2::real) powi (- int n) \<le> 2 powi (emin + 1)"
      by (rule power_int_increasing) (use n assms(4) in simp_all)
    then have "x < 2 powi (emin + 1)" using False by simp
    then show ?thesis using em assms(3,4) by simp
  qed
  then show "e \<le> emax" "x < 2 powi (e + 1)" "2 powi e \<le> x \<or> e = emin" by simp_all
qed

lemma round_float_exact:
  assumes M: "0 < M" "M < 2 ^ p" and j: "emin - int p + 1 \<le> j"
    and x: "x = of_int M * 2 powi j" and hi: "x < 2 powi (emax + 1)"
    and fmt: "emin \<le> 0" "0 \<le> emax"
  shows "round_float p emin emax x = Finite x"
proof -
  define e where "e = max emin (binary_exponent (nat (emax - emin)) x)"
  have pos: "0 < x" using M(1) by (simp add: x)
  note ex = float_exponent[OF pos hi fmt, folded e_def]
  have lt: "x < 2 powi (int p + j)"
  proof -
    have "(of_int M :: real) < of_int (2 ^ p)" using M(2) by (simp only: of_int_less_iff)
    then have "(of_int M :: real) < 2 ^ p" by simp
    then have "of_int M * 2 powi j < 2 ^ p * (2::real) powi j"
      by (intro mult_strict_right_mono) simp_all
    then show ?thesis by (simp add: x power_int_add)
  qed
  have ej: "e - int p + 1 \<le> j"
  proof (cases "e = emin")
    case True
    then show ?thesis using j by simp
  next
    case False
    with ex(4) have "2 powi e \<le> x" by simp
    with lt have "(2::real) powi e < 2 powi (int p + j)" by simp
    then have "e < int p + j" by (rule two_powi_less_exp)
    then show ?thesis by simp
  qed
  define d where "d = nat (j - (e - int p + 1))"
  have d: "j = (e - int p + 1) + int d" using ej by (simp add: d_def)
  have q: "x / 2 powi (e - int p + 1) = of_int (M * 2 ^ d)"
    unfolding x d by (simp add: power_int_add)
  have m: "round_half_even (x / 2 powi (e - int p + 1)) = M * 2 ^ d"
    unfolding q by (rule round_half_even_of_int)
  have again: "of_int (M * 2 ^ d) * 2 powi (e - int p + 1) = x"
    unfolding x d by (simp add: power_int_add)
  have fin: "\<not> (emax < e \<or> (e = emax \<and> round_half_even (x / 2 powi (e - int p + 1)) = 2 ^ p))"
  proof
    assume "emax < e \<or> (e = emax \<and> round_half_even (x / 2 powi (e - int p + 1)) = 2 ^ p)"
    with ex(2) have eq: "e = emax" "M * 2 ^ d = 2 ^ p" unfolding m by simp_all
    then have "x = of_int (2 ^ p) * 2 powi (emax - int p + 1)"
      using again by simp
    also have "\<dots> = 2 powi (emax + 1)"
      by (simp add: power_int_add power_int_diff)
    finally show False using hi by simp
  qed
  show ?thesis
    unfolding round_float_pos[OF pos] e_def[symmetric] using fin m again by simp
qed

lemma round_float_error:
  fixes p :: nat
  assumes pos: "0 < x" and hi: "x < 2 powi (emax + 1)" and fmt: "emin \<le> 0" "0 \<le> emax"
  defines "e \<equiv> max emin (binary_exponent (nat (emax - emin)) x)"
  defines "m \<equiv> round_half_even (x / 2 powi (e - int p + 1))"
  shows "round_float p emin emax x
         = (if e = emax \<and> m = 2 ^ p then PosInf else Finite (of_int m * 2 powi (e - int p + 1)))"
    and "0 \<le> m" and "m \<le> 2 ^ (p + 1)"
    and "\<bar>of_int m * 2 powi (e - int p + 1) - x\<bar> \<le> 2 powi (e - int p)"
    and "of_int m * 2 powi (e - int p + 1) \<le> (2::real) powi (e + 1)"
proof -
  note ex = float_exponent[OF pos hi fmt, folded e_def]
  define u :: real where "u = 2 powi (e - int p + 1)"
  have u: "0 < u" by (simp add: u_def)
  show "round_float p emin emax x
         = (if e = emax \<and> m = 2 ^ p then PosInf else Finite (of_int m * 2 powi (e - int p + 1)))"
    unfolding round_float_pos[OF pos] e_def[symmetric] m_def[symmetric] using ex(2) by simp
  have q0: "0 \<le> x / u" using pos u by simp
  then show "0 \<le> m" unfolding m_def u_def[symmetric]
    using round_half_even_mono_int[of 0 "x / u"] by simp
  have up: "(2::real) powi (e + 1) = 2 ^ p * u"
  proof -
    have "e + 1 = int p + (e - int p + 1)" by simp
    then have "(2::real) powi (e + 1) = 2 powi (int p + (e - int p + 1))" by simp
    also have "\<dots> = 2 powi int p * 2 powi (e - int p + 1)" by (rule power_int_add) simp
    finally show ?thesis by (simp add: u_def)
  qed
  have "x / u < 2 ^ p" using ex(3) u unfolding up by (simp add: field_simps)
  then have "x / u \<le> of_int (2 ^ p)" by simp
  then have mle: "m \<le> 2 ^ p" unfolding m_def u_def[symmetric] by (rule round_half_even_le_int)
  then show "m \<le> 2 ^ (p + 1)" by (smt (verit) power_add power_one_right zero_le_power
        mult_le_cancel_left1 mult.commute)
  have "\<bar>of_int m - x / u\<bar> \<le> 1 / 2"
    unfolding m_def u_def[symmetric] by (rule round_half_even_error)
  then have "\<bar>of_int m - x / u\<bar> * u \<le> 1 / 2 * u" using u by (intro mult_right_mono) simp_all
  moreover have "\<bar>of_int m - x / u\<bar> * u = \<bar>of_int m * u - x\<bar>"
    using u by (simp add: abs_mult_pos[symmetric] field_simps del: abs_mult_pos)
  moreover have "1 / 2 * u = 2 powi (e - int p)"
    unfolding u_def using two_powi_Suc[of "e - int p"] by simp
  ultimately show "\<bar>of_int m * 2 powi (e - int p + 1) - x\<bar> \<le> 2 powi (e - int p)"
    unfolding u_def by simp
  have "(of_int m :: real) \<le> of_int (2 ^ p)" using mle by (simp only: of_int_le_iff)
  then have "(of_int m :: real) \<le> 2 ^ p" by simp
  then have "of_int m * u \<le> 2 ^ p * u"
    using u by (intro mult_right_mono) simp_all
  then show "of_int m * 2 powi (e - int p + 1) \<le> (2::real) powi (e + 1)"
    unfolding up u_def .
qed

lemma float32_zero [simp]: "float32 0 = Finite 0"
  by (simp add: float32_def round_float_def)

lemma float64_zero [simp]: "float64 0 = Finite 0"
  by (simp add: float64_def round_float_def)

lemma float32_nat:
  assumes "n < 2 ^ 24"
  shows "float32 (real n) = Finite (real n)"
proof (cases "n = 0")
  case True
  then show ?thesis by simp
next
  case False
  have lt: "int n < 2 ^ 24" using assms by (metis of_nat_less_numeral_power_cancel_iff)
  have "real n < 2 ^ 24" using assms by (metis of_nat_less_numeral_power_cancel_iff)
  also have "\<dots> \<le> (2::real) powi (127 + 1)" by simp
  finally have hi: "real n < 2 powi (127 + 1)" .
  show ?thesis
    unfolding float32_def
    by (rule round_float_exact[where M = "int n" and j = 0]) (use False lt hi in simp_all)
qed

lemma float32_label:
  assumes "y = 0 \<or> y = 1"
  shows "float32 (of_int y) = Finite (of_int y)"
  using assms float32_nat[of 1] by auto

lemma sum_labels:
  assumes "set ys \<subseteq> {0, 1}" and "acc + length ys < 2 ^ 24"
  shows "foldl float_add32 (Finite (real acc)) (map (\<lambda>y. float32 (of_int y)) ys)
         = Finite (real (acc + length (filter (\<lambda>y. y = 1) ys)))"
  using assms
proof (induction ys arbitrary: acc)
  case Nil
  then show ?case by simp
next
  case (Cons y ys)
  from Cons.prems(1) have y: "y = 0 \<or> y = 1" by simp
  define acc' where "acc' = acc + (if y = 1 then 1 else 0)"
  have small: "acc' < 2 ^ 24" using Cons.prems(2) by (simp add: acc'_def)
  have "real acc + real_of_int y = real acc'" using y by (auto simp: acc'_def)
  then have step: "float_add32 (Finite (real acc)) (float32 (of_int y)) = Finite (real acc')"
    using float32_nat[OF small] by (simp add: float32_label[OF y] float_add32_def)
  have "acc' + length ys < 2 ^ 24" using Cons.prems(2) by (simp add: acc'_def)
  with Cons.prems(1) have
    "foldl float_add32 (Finite (real acc')) (map (\<lambda>y. float32 (of_int y)) ys)
     = Finite (real (acc' + length (filter (\<lambda>y. y = 1) ys)))"
    by (intro Cons.IH) simp_all
  then show ?case using y by (auto simp: step acc'_def)
qed

lemma float32_unit_interval:
  assumes "0 < x" and "x \<le> 1"
  shows "\<exists>m e. float32 x = Finite (of_int m * 2 powi (e - 23))
           \<and> 0 \<le> m \<and> - 126 \<le> e \<and> e \<le> 0 \<and> x < 2 powi (e + 1)
           \<and> of_int m * 2 powi (e - 23) \<le> (1::real)
           \<and> \<bar>of_int m * 2 powi (e - 23) - x\<bar> \<le> 1 / 2 ^ 25"
proof (cases "x = 1")
  case True
  have v: "float32 1 = Finite 1" using float32_nat[of 1] by simp
  have a: "of_int (2 ^ 23) * 2 powi (0 - 23) = (1::real)"
  proof -
    have "(2::real) powi (0 - 23) = 1 / 2 ^ 23" by (simp add: power_int_minus_divide)
    then show ?thesis by simp
  qed
  have "float32 1 = Finite (of_int (2 ^ 23) * 2 powi (0 - 23))
           \<and> (0::int) \<le> 2 ^ 23 \<and> - 126 \<le> (0::int) \<and> (0::int) \<le> 0 \<and> (1::real) < 2 powi (0 + 1)
           \<and> of_int (2 ^ 23) * 2 powi (0 - 23) \<le> (1::real)
           \<and> \<bar>of_int (2 ^ 23) * 2 powi (0 - 23) - (1::real)\<bar> \<le> 1 / 2 ^ 25"
    unfolding a v by simp
  then show ?thesis unfolding True by blast
next
  case False
  then have x1: "x < 1" using assms(2) by simp
  define e where "e = max (- 126) (binary_exponent (nat (127 - (- 126))) x)"
  define m where "m = round_half_even (x / 2 powi (e - int 24 + 1))"
  have hi: "x < 2 powi (127 + 1)"
  proof -
    have "(1::real) \<le> 2 powi (127 + 1)" by (rule one_le_power_int) simp_all
    with x1 show ?thesis by linarith
  qed
  have fmt: "(- 126::int) \<le> 0" "(0::int) \<le> 127" by simp_all
  note ex = float_exponent[OF assms(1) hi fmt, folded e_def]
  note rd = round_float_error[OF assms(1) hi fmt, of 24, folded e_def m_def]
  have e_neg: "e \<le> - 1"
  proof (cases "e = - 126")
    case True
    then show ?thesis by simp
  next
    case False
    with ex(4) have "2 powi e \<le> x" by simp
    with x1 have "(2::real) powi e < 2 powi 0" by simp
    then have "e < 0" by (rule two_powi_less_exp)
    then show ?thesis by simp
  qed
  have e24: "e - int 24 + 1 = e - 23" "e - int 24 = e - 24" "e - 24 + 1 = e - 23" by simp_all
  have val: "float32 x = Finite (of_int m * 2 powi (e - 23))"
    unfolding float32_def rd(1) e24 using e_neg by simp
  have "(2::real) powi (e + 1) \<le> 2 powi 0"
    by (rule power_int_increasing) (use e_neg in simp_all)
  then have le1: "of_int m * 2 powi (e - 23) \<le> (1::real)" using rd(5) unfolding e24 by simp
  have "(2::real) powi (e - 24) \<le> 2 powi (- 25)"
    by (rule power_int_increasing) (use e_neg in simp_all)
  moreover have "(2::real) powi (- 25) = 1 / 2 ^ 25" by (simp add: power_int_minus_divide)
  ultimately have err: "\<bar>of_int m * 2 powi (e - 23) - x\<bar> \<le> 1 / 2 ^ 25"
    using rd(4) unfolding e24 by linarith
  have "e \<le> 0" using e_neg by simp
  with val rd(2) ex(1,3) le1 err show ?thesis
    by (intro exI[of _ m] exI[of _ e]) (intro conjI, assumption+)
qed

lemma float64_one_minus:
  assumes "q = of_int m * 2 powi (e - 23)" and "0 \<le> m" and "- 24 \<le> e" and "e \<le> 0"
    and "q \<le> 1"
  shows "float64 (1 - q) = Finite (1 - q)"
proof (cases "q = 1")
  case True
  then show ?thesis by simp
next
  case False
  then have pos: "0 < 1 - q" using assms(5) by simp
  define d where "d = nat (23 - e)"
  define M where "M = 2 ^ d - m"
  have d: "int d = 23 - e" using assms(4) by (simp add: d_def)
  have one: "(2::real) ^ d * 2 powi (e - 23) = 1"
  proof -
    have "(2::real) ^ d = 2 powi (23 - e)" unfolding d[symmetric] by simp
    then have "(2::real) ^ d * 2 powi (e - 23) = 2 powi (23 - e) * 2 powi (e - 23)" by simp
    also have "\<dots> = 2 powi ((23 - e) + (e - 23))" by (rule power_int_add[symmetric]) simp
    finally show ?thesis by simp
  qed
  have x: "1 - q = of_int M * 2 powi (e - 23)"
    unfolding M_def assms(1) using one by (simp add: algebra_simps)
  have Mpos: "0 < M"
  proof (rule ccontr)
    assume "\<not> 0 < M"
    then have "(of_int M :: real) \<le> 0" by simp
    then have "of_int M * (2::real) powi (e - 23) \<le> 0"
      by (intro mult_nonpos_nonneg) simp_all
    with pos x show False by simp
  qed
  have "d \<le> 47" using assms(3) by (simp add: d_def)
  then have "(2::int) ^ d \<le> 2 ^ 47" by (intro power_increasing) simp_all
  then have "M \<le> 2 ^ 47" using assms(2) by (simp add: M_def)
  also have "\<dots> < (2::int) ^ 53" by simp
  finally have Mlt: "M < 2 ^ 53" .
  have j: "- 1022 - int 53 + 1 \<le> e - 23" using assms(3) by simp
  have "(1::real) \<le> 2 powi (1023 + 1)" by (rule one_le_power_int) simp_all
  moreover have "1 - q \<le> 1"
  proof -
    have "0 \<le> of_int m * (2::real) powi (e - 23)" using assms(2) by simp
    then show ?thesis by (simp add: assms(1))
  qed
  ultimately have hi: "1 - q < 2 powi (1023 + 1)"
  proof -
    have "(2::real) powi (1023 + 1) = 2 * 2 powi 1023" by (rule two_powi_Suc)
    moreover have "(1::real) \<le> 2 powi 1023" by (rule one_le_power_int) simp_all
    ultimately show ?thesis using \<open>1 - q \<le> 1\<close> by linarith
  qed
  show ?thesis
    unfolding float64_def
    by (rule round_float_exact[OF Mpos Mlt j x hi]) simp_all
qed

lemma positive_fraction_unit:
  assumes "Y ds \<noteq> []"
  shows "0 \<le> positive_fraction ds" and "positive_fraction ds \<le> 1"
proof -
  have "length (filter (\<lambda>y. y = 1) (Y ds)) \<le> length (Y ds)" by simp
  moreover have "0 < real (length (Y ds))" using assms by simp
  ultimately show "0 \<le> positive_fraction ds" "positive_fraction ds \<le> 1"
    by (simp_all add: positive_fraction_def)
qed

lemma baseline_accuracy_mean:
  assumes "Y ds \<noteq> []" and "set (Y ds) \<subseteq> {0, 1}" and "length (Y ds) < 2 ^ 24"
  shows "baseline_accuracy ds
         = (let baseline_acc = float32 (positive_fraction ds)
            in py_max (float_sub64 (Finite 1) baseline_acc) baseline_acc)"
proof -
  have total: "foldl float_add32 (Finite 0) (map (\<lambda>y. float32 (of_int y)) (Y ds))
               = Finite (real (length (filter (\<lambda>y. y = 1) (Y ds))))"
    using sum_labels[of "Y ds" 0] assms(2,3) by simp
  have n: "float32 (real (length (Y ds))) = Finite (real (length (Y ds)))"
    using assms(3) by (rule float32_nat)
  have "real (length (Y ds)) \<noteq> 0" using assms(1) by simp
  then show ?thesis
    unfolding baseline_accuracy_def Let_def length_map total n
    by (simp add: float_div32_def positive_fraction_def)
qed

text \<open>
  Claim C9, as amended. For a label tensor of at least one and fewer than \<open>2 ^ 24\<close> labels,
  each of them 0 or 1, the mean that the script takes is the fraction \<open>p\<close> of the labels
  equal to 1 rounded to single precision, \<open>p'\<close>, which differs from \<open>p\<close> by \<open>1 / 2 ^ 25\<close> at
  most; the baseline accuracy is \<open>max p' (1 - p')\<close> and lies between \<open>1/2\<close> and \<open>1\<close>.
\<close>

theorem baseline_accuracy_bounds:
  assumes "Y ds \<noteq> []" and "set (Y ds) \<subseteq> {0, 1}" and "length (Y ds) < 2 ^ 24"
  shows "\<exists>p'. float32 (positive_fraction ds) = Finite p'
           \<and> \<bar>p' - positive_fraction ds\<bar> \<le> 1 / 2 ^ 25
           \<and> baseline_accuracy ds = Finite (max p' (1 - p'))
           \<and> 1 / 2 \<le> max p' (1 - p') \<and> max p' (1 - p') \<le> 1"
proof -
  define p where "p = positive_fraction ds"
  note unit = positive_fraction_unit[OF assms(1), folded p_def]
  note mean = baseline_accuracy_mean[OF assms, folded p_def, unfolded Let_def]
  have final: "py_max (float_sub64 (Finite 1) (Finite q)) (Finite q) = Finite (max q (1 - q))"
    if "float64 (1 - q) = Finite (1 - q)" for q
    using that by (simp add: py_max_def float_sub64_def float_less_def max_def)
  have bounds: "1 / 2 \<le> max q (1 - q) \<and> max q (1 - q) \<le> 1" if "0 \<le> q" "q \<le> 1" for q :: real
    using that by (simp add: max_def)
  show ?thesis
  proof (cases "p = 0")
    case True
    have "float64 (1 - 0) = Finite (1 - 0)"
      by (rule float64_one_minus[where m = 0 and e = 0]) simp_all
    from final[OF this] have "baseline_accuracy ds = Finite (max 0 (1 - 0))"
      unfolding mean True by simp
    then show ?thesis
      unfolding p_def[symmetric] True by (intro exI[of _ 0]) simp
  next
    case False
    then have pos: "0 < p" using unit(1) by simp
    from float32_unit_interval[OF pos unit(2)] obtain m e where me:
      "float32 p = Finite (of_int m * 2 powi (e - 23))" "0 \<le> m" "- 126 \<le> e" "e \<le> 0"
      "p < 2 powi (e + 1)" "of_int m * 2 powi (e - 23) \<le> (1::real)"
      "\<bar>of_int m * 2 powi (e - 23) - p\<bar> \<le> 1 / 2 ^ 25"
      by blast
    define q :: real where "q = of_int m * 2 powi (e - 23)"
    have q0: "0 \<le> q" using me(2) by (simp add: q_def)
    have e24: "- 24 \<le> e"
    proof -
      have n: "real (length (Y ds)) < 2 ^ 24"
        using assms(3) by (metis of_nat_less_numeral_power_cancel_iff)
      have k: "1 \<le> real (length (filter (\<lambda>y. y = 1) (Y ds)))"
        using False by (cases "length (filter (\<lambda>y. y = 1) (Y ds))")
                       (simp_all add: p_def positive_fraction_def)
      have npos: "0 < real (length (Y ds))" using assms(1) by simp
      have "1 / 2 ^ 24 < 1 / real (length (Y ds))"
        using n npos by (simp add: field_simps)
      also have "\<dots> \<le> p"
        unfolding p_def positive_fraction_def using k npos by (simp add: field_simps)
      finally have "1 / 2 ^ 24 < p" .
      moreover have "(2::real) powi (- 24) = 1 / 2 ^ 24" by (simp add: power_int_minus_divide)
      ultimately have "(2::real) powi (- 24) < 2 powi (e + 1)" using me(5) by linarith
      then have "- 24 < e + 1" by (rule two_powi_less_exp)
      then show ?thesis by simp
    qed
    have "float64 (1 - q) = Finite (1 - q)"
      using q_def me(2) e24 me(4) me(6)[folded q_def] by (rule float64_one_minus)
    from final[OF this] have "baseline_accuracy ds = Finite (max q (1 - q))"
      unfolding mean me(1) q_def[symmetric] .
    with me(1,7) bounds[OF q0 me(6)[folded q_def]] show ?thesis
      unfolding p_def[symmetric] q_def[symmetric] by (intro exI[of _ q]) simp
  qed
qed

theorem baseline_accuracy_bounds_witness:
  "Y \<lparr>X = [''a'', ''b'', ''c''], Y = [1, 1, 0]\<rparr> \<noteq> []
   \<and> set (Y \<lparr>X = [''a'', ''b'', ''c''], Y = [1, 1, 0]\<rparr>) \<subseteq> {0, 1}
   \<and> length (Y \<lparr>X = [''a'', ''b'', ''c''], Y = [1, 1, 0]\<rparr>) < 2 ^ 24
   \<and> positive_fraction \<lparr>X = [''a'', ''b'', ''c''], Y = [1, 1, 0]\<rparr> = 2 / 3
   \<and> float32 (2 / 3) = Finite (11184811 / 16777216)
   \<and> baseline_accuracy \<lparr>X = [''a'', ''b'', ''c''], Y = [1, 1, 0]\<rparr>
     = Finite (11184811 / 16777216)"
proof -
  have frac: "positive_fraction \<lparr>X = [''a'', ''b'', ''c''], Y = [1, 1, 0]\<rparr> = 2 / 3"
    by (simp add: positive_fraction_def)
  have rnd: "float32 (2 / 3) = Finite (11184811 / 16777216)" by code_simp
  from baseline_accuracy_bounds[of "\<lparr>X = [''a'', ''b'', ''c''], Y = [1, 1, 0]\<rparr>"]
  obtain p' where "float32 (2 / 3) = Finite p'"
    "baseline_accuracy \<lparr>X = [''a'', ''b'', ''c''], Y = [1, 1, 0]\<rparr> = Finite (max p' (1 - p'))"
    unfolding frac by auto
  then have "baseline_accuracy \<lparr>X = [''a'', ''b'', ''c''], Y = [1, 1, 0]\<rparr>
             = Finite (11184811 / 16777216)"
    unfolding rnd by simp
  with frac rnd show ?thesis by simp
qed

text \<open>
  Claim C9 is stated for every label tensor, with the value \<open>max p (1 - p)\<close>. For
  the labels \<open>[2, 2]\<close> the baseline accuracy is 2, for a tensor without labels it is not a
  number, and for the labels \<open>[1, 1, 0]\<close>, where \<open>max p (1 - p) = 2/3\<close>, it is the single
  precision number next to \<open>2/3\<close>.
\<close>

theorem baseline_accuracy_counterexample:
  "baseline_accuracy \<lparr>X = [''a'', ''b''], Y = [2, 2]\<rparr> = Finite 2
   \<and> baseline_accuracy \<lparr>X = ([] :: string list), Y = []\<rparr> = NaN
   \<and> baseline_accuracy \<lparr>X = [''a'', ''b'', ''c''], Y = [1, 1, 0]\<rparr>
     = Finite (11184811 / 16777216)
   \<and> max (positive_fraction \<lparr>X = [''a'', ''b'', ''c''], Y = [1, 1, 0]\<rparr>)
         (1 - positive_fraction \<lparr>X = [''a'', ''b'', ''c''], Y = [1, 1, 0]\<rparr>) = 2 / 3"
proof -
  have "baseline_accuracy \<lparr>X = [''a'', ''b''], Y = [2, 2]\<rparr> = Finite 2" by code_simp
  moreover have "baseline_accuracy \<lparr>X = ([] :: string list), Y = []\<rparr> = NaN" by code_simp
  moreover have "baseline_accuracy \<lparr>X = [''a'', ''b'', ''c''], Y = [1, 1, 0]\<rparr>
     = Finite (11184811 / 16777216)" by code_simp
  moreover have "max (positive_fraction \<lparr>X = [''a'', ''b'', ''c''], Y = [1, 1, 0]\<rparr>)
         (1 - positive_fraction \<lparr>X = [''a'', ''b'', ''c''], Y = [1, 1, 0]\<rparr>) = (2 / 3 :: real)"
    by (simp add: positive_fraction_def)
  ultimately show ?thesis by simp
qed



section \<open>Properties of \<^verbatim>\<open>LSTMClassifier\<close>\<close>


lemma for_each_append:
  "for_each body (xs @ ys) s =
     (case for_each body xs s of Inl e \<Rightarrow> Inl e | Inr s' \<Rightarrow> for_each body ys s')"
  by (induction xs arbitrary: s) (auto split: sum.splits)

lemma apply_new_Linear:
  "length x = n_in \<Longrightarrow>
   \<exists>y. apply_layer (new_Linear w b k n_in n_out) x = Inr y \<and> length y = n_out"
  by (simp add: new_Linear_def)

lemma apply_ReLU: "\<exists>y. apply_layer ReLU x = Inr y \<and> length y = length x"
  by simp

lemma hidden_layers_ok:
  "length v = h \<Longrightarrow>
   \<exists>u. for_each apply_layer (concat (map (\<lambda>k. [new_Linear w b k h h, ReLU]) ks)) v = Inr u
       \<and> length u = h"
proof (induction ks arbitrary: v)
  case Nil
  then show ?case by simp
next
  case (Cons k ks)
  obtain y where y: "apply_layer (new_Linear w b k h h) v = Inr y" "length y = h"
    using apply_new_Linear[OF Cons.prems] by blast
  have "length (map (max 0) y) = h" using y(2) by simp
  from Cons.IH[OF this] obtain u where
    "for_each apply_layer (concat (map (\<lambda>k. [new_Linear w b k h h, ReLU]) ks)) (map (max 0) y)
     = Inr u" "length u = h" by blast
  then show ?case using y(1) by simp
qed

lemma head_ok:
  assumes "length v = h_size"
  shows "\<exists>l. sequential (linear (LSTMClassifier_init lstm_w w b n_in seq_size h_size n_cls
                                   n_lstm_layers n_hidden p_drop)) v = Inr l
            \<and> length l = n_cls"
proof -
  obtain u where u:
    "for_each apply_layer
       (concat (map (\<lambda>k. [new_Linear w b k h_size h_size, ReLU]) [0..<nat n_hidden])) v = Inr u"
    "length u = h_size"
    using hidden_layers_ok[OF assms] by blast
  obtain l where "apply_layer (new_Linear w b (nat n_hidden) h_size n_cls) u = Inr l"
    "length l = n_cls"
    using apply_new_Linear[OF u(2)] by blast
  then show ?thesis
    using u(1) by (simp add: sequential_def LSTMClassifier_init_def for_each_append)
qed

lemma time_mean_Some:
  assumes "rows \<noteq> []" "list_all (\<lambda>r. length r = h) rows"
  shows "time_mean rows
         = Some (map (\<lambda>j. (\<Sum>r\<leftarrow>rows. r ! j) / real (length rows)) [0..<h])"
proof -
  have "length (hd rows) = h" using assms by (cases rows) simp_all
  then show ?thesis using assms(1) by (simp add: time_mean_def)
qed

lemma map_rows_total:
  "\<forall>x \<in> set xs. f x = Inr (g x) \<Longrightarrow> map_rows f xs = Inr (map g xs)"
  by (induction xs) simp_all


text \<open>
  Claim C10. Let the classifier be built by the constructor, with any number of recurrent
  layers and of hidden linear layers, and let the input have shape \<open>(B, L, input_size)\<close>
  with \<open>L \<ge> 1\<close>, for which the recurrent layer returns an output sequence \<open>out\<close> of shape
  \<open>(B, L, h_size)\<close>. Then \<open>forward\<close> returns, for each of the \<open>B\<close> batch elements, the
  linear head applied to the mean of \<open>out\<close> over the \<open>L\<close> time steps; each row of the result
  has \<open>n_classes\<close> entries. The result is a function of \<open>out\<close> alone: the last hidden and
  cell states of the layers, which the docstring speaks of, do not enter it.
\<close>

theorem forward_mean_of_lstm_output:
  assumes "self = LSTMClassifier_init lstm_w w b n_in seq_size h_size n_cls
                    n_lstm_layers n_hidden p_drop"
    and "shape3 seq (B, L, n_in)" and "1 \<le> L"
    and "lstm_call (lstm self) seq = Inr (out, h_n, c_n)"
    and "shape3 out (B, L, h_size)"
  shows "\<exists>logits. forward lstm_call self seq = Inr (map Some logits)
          \<and> length logits = B
          \<and> (\<forall>i < B. sequential (linear self)
                         (map (\<lambda>j. (\<Sum>r\<leftarrow>out ! i. r ! j) / real L) [0..<h_size])
                       = Inr (logits ! i)
                     \<and> length (logits ! i) = n_cls)
          \<and> n_classes self = n_cls
          \<and> (\<forall>lstm_call' h_n' c_n'.
                lstm_call' (lstm self) seq = Inr (out, h_n', c_n') \<longrightarrow>
                forward lstm_call' self seq = forward lstm_call self seq)"
proof -
  define mean where
    "mean = (\<lambda>rows :: real list list.
               map (\<lambda>j. (\<Sum>r\<leftarrow>rows. r ! j) / real L) [0..<h_size])"
  define head where "head = (\<lambda>v. sequential (linear self) v)"
  have rows: "rows \<noteq> [] \<and> length rows = L \<and> list_all (\<lambda>r. length r = h_size) rows"
    if "rows \<in> set out" for rows
    using that assms(3,5) by (auto simp: shape3_def list_all_iff)
  have tm: "time_mean rows = Some (mean rows)" if "rows \<in> set out" for rows
    using rows[OF that] time_mean_Some[of rows h_size] by (simp add: mean_def)
  have len_mean: "length (mean rows) = h_size" for rows by (simp add: mean_def)
  have "\<exists>l. head (mean rows) = Inr l \<and> length l = n_cls" for rows
    unfolding head_def assms(1) by (rule head_ok[OF len_mean])
  then obtain g where g: "\<And>rows. head (mean rows) = Inr (g rows) \<and> length (g rows) = n_cls"
    by metis
  have each: "(case time_mean rows of
                 None \<Rightarrow> Inr None
               | Some v \<Rightarrow> (case sequential (linear self) v of
                              Inl e \<Rightarrow> Inl e
                            | Inr logits \<Rightarrow> Inr (Some logits)))
              = Inr (Some (g rows))"
    if "rows \<in> set out" for rows
    using tm[OF that] g[of rows] by (simp add: head_def)
  have run: "forward lstm_call' self seq = Inr (map (\<lambda>rows. Some (g rows)) out)"
    if "lstm_call' (lstm self) seq = Inr (out, h_n', c_n')" for lstm_call' h_n' c_n'
    using that each by (simp add: forward_def map_rows_total)
  have B: "length out = B" using assms(5) by (simp add: shape3_def)
  have items: "sequential (linear self) (mean (out ! i)) = Inr (map g out ! i)
               \<and> length (map g out ! i) = n_cls" if "i < B" for i
    using that B g[of "out ! i"] by (simp add: head_def)
  have ncls: "n_classes self = n_cls" by (simp add: assms(1) LSTMClassifier_init_def)
  have same: "forward lstm_call' self seq = forward lstm_call self seq"
    if "lstm_call' (lstm self) seq = Inr (out, h_n', c_n')" for lstm_call' h_n' c_n'
    using run[of lstm_call' h_n' c_n'] run[of lstm_call h_n c_n] that assms(4) by simp
  have "forward lstm_call self seq = Inr (map Some (map g out))"
    using run[of lstm_call h_n c_n] assms(4) by (simp add: comp_def)
  moreover have "length (map g out) = B" using B by simp
  ultimately show ?thesis
    using items ncls same unfolding mean_def by blast
qed

theorem forward_mean_of_lstm_output_witness:
  "shape3 [[[1, 2, 3], [4, 5, 6]]] (1, 2, 3) \<and> (1::nat) \<le> 2
   \<and> shape3 [[[1, 3], [3, 5]]] (1, 2, 2)
   \<and> forward (\<lambda>m seq. Inr ([[[1, 3], [3, 5]]], [], []))
        (LSTMClassifier_init () (\<lambda>k r c. 1) (\<lambda>k r. real r) 3 2 2 2 1 0 0)
        [[[1, 2, 3], [4, 5, 6]]]
      = Inr [Some [6, 7]]"
proof -
  define self where
    "self = LSTMClassifier_init () (\<lambda>k r c. 1) (\<lambda>k r. real r) 3 2 2 2 1 0 0"
  have s1: "shape3 [[[1, 2, 3], [4, 5, 6]]] (1, 2, 3)" by (simp add: shape3_def)
  have s2: "shape3 [[[1, 3], [3, 5]]] (1, 2, 2)" by (simp add: shape3_def)
  have l: "(1::nat) \<le> 2" by simp
  have call: "(\<lambda>m seq. Inr ([[[1, 3], [3, 5]]], [], [])) (lstm self) [[[1, 2, 3], [4, 5, 6]]]
              = Inr ([[[1, 3], [3, 5]]], [], [])"
    by simp
  obtain logits where lg:
    "forward (\<lambda>m seq. Inr ([[[1, 3], [3, 5]]], [], [])) self [[[1, 2, 3], [4, 5, 6]]]
     = Inr (map Some logits)"
    "length logits = 1"
    "sequential (linear self)
       (map (\<lambda>j. (\<Sum>r\<leftarrow>[[[1, 3], [3, 5]]] ! 0. r ! j) / real (2::nat)) [0..<2])
     = Inr (logits ! 0)"
    using forward_mean_of_lstm_output[OF self_def s1 l call s2] by auto
  have "[0..<2] = [0, Suc 0]" by (simp add: upt_conv_Cons)
  then have "sequential (linear self)
               (map (\<lambda>j. (\<Sum>r\<leftarrow>[[[1, 3], [3, 5]]] ! 0. r ! j) / real (2::nat)) [0..<2])
             = Inr [6, 7]"
    by (simp add: self_def LSTMClassifier_init_def sequential_def new_Linear_def)
  then have "logits ! 0 = [6, 7]" using lg(3) by simp
  then have "logits = [[6, 7]]" using lg(2) by (cases logits) auto
  then show ?thesis using lg(1) s1 s2 l unfolding self_def by simp
qed


section \<open>Properties of \<^verbatim>\<open>train\<close>\<close>

lemma for_each_invariant:
  assumes "for_each body xs s = Inr s'" and "P s"
    and "\<And>x t t'. x \<in> set xs \<Longrightarrow> P t \<Longrightarrow> body x t = Inr t' \<Longrightarrow> P t'"
  shows "P s'"
  using assms
proof (induction xs arbitrary: s)
  case Nil
  then show ?case by simp
next
  case (Cons x xs)
  from Cons.prems(1) obtain t where t: "body x s = Inr t" "for_each body xs t = Inr s'"
    by (auto split: sum.splits)
  have "P t" using Cons.prems(3)[of x s t] Cons.prems(2) t(1) by simp
  moreover have "P u'" if "y \<in> set xs" "P u" "body y u = Inr u'" for y u u'
    using Cons.prems(3)[of y u u'] that by simp
  ultimately show ?case by (rule Cons.IH[OF t(2)])
qed

lemma evaluations_append: "evaluations (es @ es') = evaluations es @ evaluations es'"
  by (induction es rule: evaluations.induct) simp_all

lemma train_steps_append: "train_steps (es @ es') = train_steps es @ train_steps es'"
  by (induction es rule: train_steps.induct) simp_all

lemma test_batch_bounds:
  assumes "test_batch T m b cn = Inr cn'" and "0 \<le> fst cn \<and> fst cn \<le> real (snd cn)"
  shows "0 \<le> fst cn' \<and> fst cn' \<le> real (snd cn')"
proof -
  obtain c n where cn: "cn = (c, n)" by (cases cn)
  obtain logits pred where p: "call T m (sequence b) = Inr logits" "max_dim1 T logits = Inr pred"
    "cn' = (c + real (length (filter (\<lambda>(p, y). p = y) (zip pred (label b)))), n + length pred)"
    using assms(1) by (auto simp: test_batch_def cn split: sum.splits)
  have "length (filter (\<lambda>(p, y). p = y) (zip pred (label b))) \<le> length pred"
    by (rule order_trans[OF length_filter_le]) simp
  then show ?thesis using assms(2) p(3) cn by simp
qed

lemma test_loop_bounds:
  assumes "for_each (test_batch T m) batches (0, 0) = Inr (correct, n_samples)"
  shows "0 \<le> correct \<and> correct \<le> real n_samples"
proof -
  have "0 \<le> fst (correct, n_samples) \<and> fst (correct, n_samples) \<le> real (snd (correct, n_samples))"
    by (rule for_each_invariant[OF assms, where P = "\<lambda>cn. 0 \<le> fst cn \<and> fst cn \<le> real (snd cn)"])
       (simp, rule test_batch_bounds)
  then show ?thesis by simp
qed

lemma evaluate_result:
  assumes "evaluate T test_loader s = Inr s'"
  shows "\<exists>acc loader. 0 \<le> acc \<and> acc \<le> 1
           \<and> global_step s' = global_step s
           \<and> accuracies s' = drop 1 (accuracies s) @ [acc]
           \<and> max_running_mean s'
               = (case tensor_mean (accuracies s') of
                    None \<Rightarrow> max_running_mean s
                  | Some mean \<Rightarrow> if mean > max_running_mean s then mean
                                 else max_running_mean s)
           \<and> events s' = events s @ [Model_eval,
                                      Evaluation (global_step s) acc (max_running_mean s'),
                                      Model_train]
           \<and> test_loader = Some loader
           \<and> accuracy_on T loader (rng s) (model_eval T (model s)) acc
           \<and> model s' = model_train T (model_eval T (model s))
           \<and> rng s' = Suc (rng s)"
proof -
  define s1 where "s1 = s\<lparr>model := model_eval T (model s), events := events s @ [Model_eval]\<rparr>"
  from assms obtain loader batches correct n_samples where
    tl: "test_loader = Some loader"
    and it: "iter_DataLoader (randperm T) (rng s1) loader = Inr batches"
    and r: "for_each (test_batch T (model s1)) batches (0, 0) = Inr (correct, n_samples)"
       "n_samples \<noteq> 0"
    and s': "s' = (let acc = correct / real n_samples;
                      accuracies' = drop 1 (accuracies s1) @ [acc];
                      mrm = (case tensor_mean accuracies' of
                               None \<Rightarrow> max_running_mean s1
                             | Some mean \<Rightarrow> if mean > max_running_mean s1 then mean
                                            else max_running_mean s1)
                  in s1\<lparr>rng := rng s1 + 1, accuracies := accuracies',
                        max_running_mean := mrm, model := model_train T (model s1),
                        events := events s1
                                  @ [Evaluation (global_step s1) acc mrm, Model_train]\<rparr>)"
    unfolding evaluate_def s1_def[symmetric] Let_def
    by (auto split: option.splits sum.splits prod.splits if_splits)
  have b: "0 \<le> correct" "correct \<le> real n_samples" using test_loop_bounds[OF r(1)] by simp_all
  have unit: "0 \<le> correct / real n_samples" "correct / real n_samples \<le> 1"
    using b r(2) by simp_all
  have acc: "accuracy_on T loader (rng s) (model_eval T (model s)) (correct / real n_samples)"
    using it r by (simp add: accuracy_on_def s1_def)
  show ?thesis
    using unit acc tl
    by (intro exI[of _ "correct / real n_samples"] exI[of _ loader])
       (simp add: s' s1_def Let_def split: option.splits)
qed

lemma train_step_cases [consumes 1, case_names plain eval]:
  assumes "train_step T lf test_loader (ix, batch) s = Inr s'"
  obtains (plain) l logits where
      "Suc (global_step s) mod 5 \<noteq> 0" "global_step s' = Suc (global_step s)"
      "events s' = events s @ [Train_step (global_step s) l]"
      "accuracies s' = accuracies s" "max_running_mean s' = max_running_mean s"
      "call T (model s) (sequence batch) = Inr logits"
      "apply_loss T lf logits (label batch) = Inr l"
      "model s' = snd (backward_step T lf (optim s) (model s) (sequence batch) (label batch))"
      "rng s' = rng s"
  | (eval) l acc logits loader where
      "Suc (global_step s) mod 5 = 0" "global_step s' = Suc (global_step s)"
      "0 \<le> acc" "acc \<le> 1"
      "accuracies s' = drop 1 (accuracies s) @ [acc]"
      "max_running_mean s'
         = (case tensor_mean (accuracies s') of
              None \<Rightarrow> max_running_mean s
            | Some mean \<Rightarrow> if mean > max_running_mean s then mean else max_running_mean s)"
      "events s' = events s @ [Train_step (global_step s) l, Model_eval,
                               Evaluation (Suc (global_step s)) acc (max_running_mean s'),
                               Model_train]"
      "call T (model s) (sequence batch) = Inr logits"
      "apply_loss T lf logits (label batch) = Inr l"
      "test_loader = Some loader"
      "accuracy_on T loader (rng s)
         (model_eval T (snd (backward_step T lf (optim s) (model s)
                               (sequence batch) (label batch)))) acc"
      "model s' = model_train T
                    (model_eval T (snd (backward_step T lf (optim s) (model s)
                                          (sequence batch) (label batch))))"
      "rng s' = Suc (rng s)"
proof -
  define s1 where
    "s1 = (\<lambda>l. s\<lparr>model := snd (backward_step T lf (optim s) (model s) (sequence batch) (label batch)),
            optim := fst (backward_step T lf (optim s) (model s) (sequence batch) (label batch)),
            events := events s @ [Train_step (global_step s) l],
            global_step := global_step s + 1,
            epoch_loss := epoch_loss s + l,
            running_loss := (if ix = 0 then l else running_loss s * 0.5 + l * 0.5)\<rparr>)"
  have unf: "train_step T lf test_loader (ix, batch) s =
        (case call T (model s) (sequence batch) of
           Inl e \<Rightarrow> Inl e
         | Inr logits \<Rightarrow>
        (case apply_loss T lf logits (label batch) of
           Inl e \<Rightarrow> Inl e
         | Inr l \<Rightarrow>
             if global_step (s1 l) mod 5 = 0 then evaluate T test_loader (s1 l) else Inr (s1 l)))"
    unfolding train_step_def s1_def Let_def case_prod_unfold fst_conv snd_conv ..
  from assms[unfolded unf] obtain logits where
    lg: "call T (model s) (sequence batch) = Inr logits"
    and r1: "(case apply_loss T lf logits (label batch) of
           Inl e \<Rightarrow> Inl e
         | Inr l \<Rightarrow>
             if global_step (s1 l) mod 5 = 0 then evaluate T test_loader (s1 l) else Inr (s1 l))
        = Inr s'"
    by (cases "call T (model s) (sequence batch)") auto
  from r1 obtain l where
    l: "apply_loss T lf logits (label batch) = Inr l"
    and run: "(if global_step (s1 l) mod 5 = 0 then evaluate T test_loader (s1 l) else Inr (s1 l))
              = Inr s'"
    by (cases "apply_loss T lf logits (label batch)") auto
  have f1: "global_step (s1 l) = Suc (global_step s)" "accuracies (s1 l) = accuracies s"
    "max_running_mean (s1 l) = max_running_mean s"
    "events (s1 l) = events s @ [Train_step (global_step s) l]"
    "model (s1 l) = snd (backward_step T lf (optim s) (model s) (sequence batch) (label batch))"
    "rng (s1 l) = rng s"
    by (simp_all add: s1_def)
  show ?thesis
  proof (cases "Suc (global_step s) mod 5 = 0")
    case False
    then have "s' = s1 l" using run f1(1) by simp
    then show ?thesis using False f1 lg l by (intro plain[of l logits]) simp_all
  next
    case True
    then have "evaluate T test_loader (s1 l) = Inr s'" using run f1(1) by simp
    from evaluate_result[OF this] obtain acc loader where r:
      "0 \<le> acc" "acc \<le> 1" "global_step s' = global_step (s1 l)"
      "accuracies s' = drop 1 (accuracies (s1 l)) @ [acc]"
      "max_running_mean s'
         = (case tensor_mean (accuracies s') of
              None \<Rightarrow> max_running_mean (s1 l)
            | Some mean \<Rightarrow> if mean > max_running_mean (s1 l) then mean
                           else max_running_mean (s1 l))"
      "events s' = events (s1 l) @ [Model_eval,
                                    Evaluation (global_step (s1 l)) acc (max_running_mean s'),
                                    Model_train]"
      "test_loader = Some loader"
      "accuracy_on T loader (rng (s1 l)) (model_eval T (model (s1 l))) acc"
      "model s' = model_train T (model_eval T (model (s1 l)))"
      "rng s' = Suc (rng (s1 l))"
      by blast
    show ?thesis
      using True r lg l unfolding f1 by (intro eval[of acc l logits loader]) simp_all
  qed
qed

subsection \<open>The rolling window\<close>

lemma eval_accs_append: "eval_accs (es @ es') = eval_accs es @ eval_accs es'"
  by (simp add: eval_accs_def evaluations_append)

lemma eval_maxes_append: "eval_maxes (es @ es') = eval_maxes es @ eval_maxes es'"
  by (simp add: eval_maxes_def evaluations_append)

lemma eval_steps_append: "eval_steps (es @ es') = eval_steps es @ eval_steps es'"
  by (simp add: eval_steps_def evaluations_append)

lemma length_eval_maxes: "length (eval_maxes es) = length (eval_accs es)"
  by (simp add: eval_maxes_def eval_accs_def)

lemma length_window: "length (window accs) = 5"
  by (simp add: window_def)

lemma window_snoc: "window (accs @ [a]) = drop 1 (window accs) @ [a]"
proof -
  define zs where "zs = replicate 5 (0::real) @ accs"
  have len: "Suc (length accs) \<le> length zs" by (simp add: zs_def)
  have "window (accs @ [a]) = drop (Suc (length accs)) (zs @ [a])"
    by (simp add: window_def zs_def)
  also have "\<dots> = drop (Suc (length accs)) zs @ [a]" using len by simp
  also have "drop (Suc (length accs)) zs = drop 1 (drop (length accs) zs)" by simp
  finally show ?thesis by (simp add: window_def zs_def)
qed




lemma tensor_mean_window: "tensor_mean (window accs) = Some (window_mean accs)"
proof -
  have "window accs \<noteq> []" using length_window[of accs] by auto
  then show ?thesis by (simp add: tensor_mean_def window_mean_def length_window)
qed

lemma length_window_means: "length (window_means accs) = length accs"
  by (simp add: window_means_def)

lemma window_means_snoc:
  "window_means (accs @ [a]) = window_means accs @ [window_mean (accs @ [a])]"
  by (simp add: window_means_def)


lemma Max_snoc: "Max (set (0 # xs @ [x])) = max (Max (set (0 # xs))) (x::real)"
proof -
  have "set (0 # xs @ [x]) = insert x (set (0 # xs))" by auto
  then show ?thesis by (simp add: max.commute)
qed

subsection \<open>The invariants of the loops\<close>

lemma window_invariant_keep:
  assumes "window_invariant s"
    and "accuracies s' = accuracies s" "max_running_mean s' = max_running_mean s"
    and "evaluations (events s') = evaluations (events s)"
  shows "window_invariant s'"
  using assms by (simp add: window_invariant_def eval_accs_def eval_maxes_def)

lemma window_invariant_eval:
  assumes inv: "window_invariant s"
    and acc: "0 \<le> acc" "acc \<le> 1"
    and w: "accuracies s' = drop 1 (accuracies s) @ [acc]"
    and m: "max_running_mean s'
            = (case tensor_mean (accuracies s') of
                 None \<Rightarrow> max_running_mean s
               | Some mean \<Rightarrow> if mean > max_running_mean s then mean else max_running_mean s)"
    and e: "evaluations (events s')
            = evaluations (events s) @ [(g, acc, max_running_mean s')]"
  shows "window_invariant s'"
proof -
  define accs where "accs = eval_accs (events s)"
  have accs': "eval_accs (events s') = accs @ [acc]"
    by (simp add: eval_accs_def e accs_def)
  have maxes': "eval_maxes (events s') = eval_maxes (events s) @ [max_running_mean s']"
    by (simp add: eval_maxes_def e)
  have i1: "accuracies s = window accs"
    and i2: "\<forall>a \<in> set accs. 0 \<le> a \<and> a \<le> 1"
    and i3: "max_running_mean s = Max (set (0 # window_means accs))"
    and i4: "\<forall>k < length accs. eval_maxes (events s) ! k
                                 = Max (set (0 # take (Suc k) (window_means accs)))"
    using inv by (simp_all add: window_invariant_def accs_def)
  have c1: "accuracies s' = window (accs @ [acc])"
    by (simp add: w i1 window_snoc)
  have c2: "\<forall>a \<in> set (accs @ [acc]). 0 \<le> a \<and> a \<le> 1"
    using i2 acc by auto
  have "max_running_mean s' = max (max_running_mean s) (window_mean (accs @ [acc]))"
    by (simp add: m c1 tensor_mean_window max_def)
  then have c3: "max_running_mean s' = Max (set (0 # window_means (accs @ [acc])))"
    by (simp only: i3 window_means_snoc Max_snoc)
  have c4: "eval_maxes (events s') ! k
            = Max (set (0 # take (Suc k) (window_means (accs @ [acc]))))"
    if "k < length (accs @ [acc])" for k
  proof (cases "k < length accs")
    case True
    then have "eval_maxes (events s') ! k = eval_maxes (events s) ! k"
      by (simp add: maxes' nth_append length_eval_maxes accs_def)
    moreover have "take (Suc k) (window_means (accs @ [acc])) = take (Suc k) (window_means accs)"
      using True by (simp add: window_means_snoc length_window_means)
    ultimately show ?thesis using i4 True by simp
  next
    case False
    then have k: "k = length accs" using that by simp
    have "eval_maxes (events s') ! k = max_running_mean s'"
      by (simp add: maxes' k nth_append length_eval_maxes accs_def)
    moreover have "take (Suc k) (window_means (accs @ [acc])) = window_means (accs @ [acc])"
      by (simp add: k length_window_means)
    ultimately show ?thesis using c3 by simp
  qed
  show ?thesis
    unfolding window_invariant_def accs' using c1 c2 c3 c4 by blast
qed

lemma train_step_window:
  assumes "train_step T lf test_loader ixb s = Inr s'" and "window_invariant s"
  shows "window_invariant s'"
proof -
  obtain ix batch where ixb: "ixb = (ix, batch)" by (cases ixb)
  from assms(1)[unfolded ixb] show ?thesis
  proof (cases rule: train_step_cases)
    case (plain l logits)
    then show ?thesis
      by (intro window_invariant_keep[OF assms(2)]; simp add: evaluations_append)
  next
    case (eval l acc logits loader)
    then show ?thesis
      by (intro window_invariant_eval[OF assms(2), where g = "Suc (global_step s)" and acc = acc])
         (simp_all add: evaluations_append)
  qed
qed

lemma train_step_schedule:
  assumes "train_step T (CrossEntropyLoss Mean) test_loader (ix, batch) s = Inr s'"
    and "schedule T train_loader test_loader model0 (global_step s) (model s) (events s)"
    and "iter_DataLoader (randperm T) j train_loader = Inr batches" and "batch \<in> set batches"
  shows "schedule T train_loader test_loader model0 (global_step s') (model s') (events s')"
  using assms(1)
proof (cases rule: train_step_cases)
  case (plain l logits)
  have "schedule T train_loader test_loader model0 (Suc (global_step s)) (model s')
          (events s @ [Train_step (global_step s) l])"
    by (rule schedule.step[OF assms(2) plain(1) assms(3,4) plain(6,7,8)])
  then show ?thesis by (simp only: plain(2,3))
next
  case (eval l acc logits loader)
  have "schedule T train_loader test_loader model0 (Suc (global_step s))
          (model_train T
             (model_eval T (snd (backward_step T (CrossEntropyLoss Mean) (optim s) (model s)
                                   (sequence batch) (label batch)))))
          (events s @ [Train_step (global_step s) l, Model_eval,
                       Evaluation (Suc (global_step s)) acc (max_running_mean s'), Model_train])"
    by (rule schedule.step_eval[OF assms(2) eval(1) assms(3,4) eval(8,9) refl eval(10,11)])
  then show ?thesis by (simp only: eval(2,7,12))
qed

lemma train_step_global_step:
  assumes "train_step T lf test_loader x s = Inr s'"
  shows "global_step s' = Suc (global_step s)"
proof -
  obtain ix batch where x: "x = (ix, batch)" by (cases x)
  from assms[unfolded x] show ?thesis by (cases rule: train_step_cases) simp_all
qed

lemma for_each_add:
  assumes "for_each body xs s = Inr s'"
    and "\<And>x t t'. body x t = Inr t' \<Longrightarrow> f t' = f t + (c::nat)"
  shows "f s' = f s + c * length xs"
  using assms(1)
proof (induction xs arbitrary: s)
  case Nil
  then show ?case by simp
next
  case (Cons x xs)
  from Cons.prems obtain t where t: "body x s = Inr t" "for_each body xs t = Inr s'"
    by (auto split: sum.splits)
  from Cons.IH[OF t(2)] assms(2)[OF t(1)] show ?case by simp
qed

lemma map_rows_length: "map_rows f xs = Inr ys \<Longrightarrow> length ys = length xs"
  by (induction xs arbitrary: ys) (auto split: sum.splits)

lemma iter_DataLoader_length:
  assumes "iter_DataLoader rp k loader = Inr batches"
    and "\<forall>k n. length (rp k n) = n"
  shows "length batches = len_DataLoader loader"
proof -
  define n where "n = len_SeqDataset (dl_dataset loader)"
  define indices where "indices = (if dl_shuffle loader then rp k n else [0..<n])"
  have len: "length indices = n" using assms(2) by (simp add: indices_def)
  have "length batches = length (batched (dl_batch_size loader) indices)"
    using assms(1) unfolding iter_DataLoader_def Let_def n_def[symmetric] indices_def[symmetric]
    by (rule map_rows_length)
  also have "\<dots> = (n + dl_batch_size loader - 1) div dl_batch_size loader"
  proof (cases "dl_batch_size loader = 0")
    case True
    then show ?thesis by simp
  next
    case False
    then show ?thesis using length_batched[of "dl_batch_size loader" indices] len by simp
  qed
  finally show ?thesis by (simp add: len_DataLoader_def n_def)
qed

lemma enumerate_py_snd: "x \<in> set (enumerate_py xs) \<Longrightarrow> snd x \<in> set xs"
  unfolding enumerate_py_def by (cases x) (auto dest: set_zip_rightD)

lemma train_epoch_unfold:
  assumes "train_epoch T lf train_loader test_loader epoch s = Inr s'"
  obtains batches where
    "iter_DataLoader (randperm T) (rng s) train_loader = Inr batches"
    "for_each (train_step T lf test_loader) (enumerate_py batches)
       (s\<lparr>model := model_train T (model s), events := events s @ [Model_train],
          epoch_loss := 0, running_loss := 0, rng := rng s + 1\<rparr>) = Inr s'"
    "len_DataLoader train_loader \<noteq> 0"
proof -
  define s1 where
    "s1 = s\<lparr>model := model_train T (model s), events := events s @ [Model_train],
            epoch_loss := 0, running_loss := 0\<rparr>"
  have "train_epoch T lf train_loader test_loader epoch s =
     (case iter_DataLoader (randperm T) (rng s1) train_loader of
           Inl e \<Rightarrow> Inl e
         | Inr batches \<Rightarrow>
             (case for_each (train_step T lf test_loader) (enumerate_py batches)
                     (s1\<lparr>rng := rng s1 + 1\<rparr>) of
                Inl e \<Rightarrow> Inl e
              | Inr s \<Rightarrow>
                  if len_DataLoader train_loader = 0 then Inl ZeroDivisionError else Inr s))"
    unfolding train_epoch_def s1_def Let_def ..
  then obtain batches where
    "iter_DataLoader (randperm T) (rng s1) train_loader = Inr batches"
    "for_each (train_step T lf test_loader) (enumerate_py batches) (s1\<lparr>rng := rng s1 + 1\<rparr>)
     = Inr s'"
    "len_DataLoader train_loader \<noteq> 0"
    using assms(1)
    by (cases "iter_DataLoader (randperm T) (rng s1) train_loader")
       (auto split: sum.splits if_splits)
  then show ?thesis by (intro that[of batches]) (simp_all add: s1_def)
qed

lemma train_epoch_invariants:
  fixes T :: "('m, 'o, 'x, 'l) torch"
  assumes "train_epoch T (CrossEntropyLoss Mean) train_loader test_loader epoch s = Inr s'"
    and "window_invariant s
         \<and> schedule T train_loader test_loader model0 (global_step s) (model s) (events s)"
  shows "window_invariant s'
         \<and> schedule T train_loader test_loader model0 (global_step s') (model s') (events s')"
proof -
  define s2 where
    "s2 = s\<lparr>model := model_train T (model s), events := events s @ [Model_train],
            epoch_loss := 0, running_loss := 0, rng := rng s + 1\<rparr>"
  from assms(1) obtain batches where
    it: "iter_DataLoader (randperm T) (rng s) train_loader = Inr batches"
    and loop: "for_each (train_step T (CrossEntropyLoss Mean) test_loader) (enumerate_py batches) s2
               = Inr s'"
    unfolding s2_def by (rule train_epoch_unfold)
  define P :: "('m, 'o) train_state \<Rightarrow> bool" where
    "P = (\<lambda>t. window_invariant t
              \<and> schedule T train_loader test_loader model0 (global_step t) (model t) (events t))"
  have "window_invariant s2"
    by (rule window_invariant_keep[of s])
       (use assms(2) in \<open>simp_all add: s2_def evaluations_append\<close>)
  moreover have "schedule T train_loader test_loader model0 (global_step s2) (model s2) (events s2)"
    using assms(2) by (simp add: s2_def schedule.epoch)
  ultimately have start: "P s2" by (simp add: P_def)
  have step: "P t'"
    if "x \<in> set (enumerate_py batches)" "P t"
      "train_step T (CrossEntropyLoss Mean) test_loader x t = Inr t'" for x t t'
  proof -
    obtain ix batch where x: "x = (ix, batch)" by (cases x)
    have mem: "batch \<in> set batches" using enumerate_py_snd[OF that(1)] x by simp
    show ?thesis
      using train_step_window[OF that(3)] train_step_schedule[OF that(3)[unfolded x] _ it mem]
        that(2)
      by (simp add: P_def)
  qed
  have "P s'" by (rule for_each_invariant[OF loop, where P = P]) (rule start, rule step)
  then show ?thesis by (simp add: P_def)
qed

lemma train_epoch_count:
  assumes "train_epoch T lf train_loader test_loader epoch s = Inr s'"
    and "\<forall>k n. length (randperm T k n) = n"
  shows "global_step s' = global_step s + len_DataLoader train_loader"
proof -
  from assms(1) obtain batches where
    it: "iter_DataLoader (randperm T) (rng s) train_loader = Inr batches"
    and loop: "for_each (train_step T lf test_loader) (enumerate_py batches)
       (s\<lparr>model := model_train T (model s), events := events s @ [Model_train],
          epoch_loss := 0, running_loss := 0, rng := rng s + 1\<rparr>) = Inr s'"
    by (rule train_epoch_unfold)
  have "length batches = len_DataLoader train_loader"
    by (rule iter_DataLoader_length[OF it assms(2)])
  moreover have "global_step s' = global_step s + 1 * length (enumerate_py batches)"
    using for_each_add[OF loop, where f = global_step and c = 1] train_step_global_step
    by fastforce
  ultimately show ?thesis by (simp add: enumerate_py_def)
qed

lemma train_eq:
  "train T a model0 optim0 train_loader test_loader baseline_acc (fs0, rng0)
   = (case train_directories (event_file T) a fs0 of
        Inl e \<Rightarrow> Inl e
      | Inr fs \<Rightarrow>
          (case for_each (train_epoch T (CrossEntropyLoss Mean) train_loader test_loader)
                  [0 ..< nat (num_epochs a)]
                  \<lparr>model = model0, optim = optim0, rng = rng0, global_step = 0,
                   accuracies = replicate 5 0, max_running_mean = 0,
                   epoch_loss = 0, running_loss = 0, events = []\<rparr> of
             Inl e \<Rightarrow> Inl e
           | Inr s \<Rightarrow> Inr (max_running_mean s, s, fs)))"
  unfolding train_def Let_def prod.case add_0 ..

lemma train_unfold:
  assumes "train T a model0 optim0 train_loader test_loader baseline_acc (fs0, rng0)
           = Inr (perf, s, fs')"
  shows "train_directories (event_file T) a fs0 = Inr fs'
       \<and> for_each (train_epoch T (CrossEntropyLoss Mean) train_loader test_loader)
             [0 ..< nat (num_epochs a)]
             \<lparr>model = model0, optim = optim0, rng = rng0, global_step = 0,
              accuracies = replicate 5 0, max_running_mean = 0,
              epoch_loss = 0, running_loss = 0, events = []\<rparr> = Inr s
       \<and> perf = max_running_mean s"
  using assms unfolding train_eq
  by (cases "train_directories (event_file T) a fs0") (auto split: sum.splits)

lemma train_invariants:
  fixes T :: "('m, 'o, 'x, 'l) torch"
  assumes "train T a model0 optim0 train_loader test_loader baseline_acc world = Inr (perf, s, fs')"
  shows "perf = max_running_mean s \<and> window_invariant s
       \<and> schedule T train_loader test_loader model0 (global_step s) (model s) (events s)"
proof -
  define s0 :: "('m, 'o) train_state" where
    "s0 = \<lparr>model = model0, optim = optim0, rng = snd world, global_step = 0,
           accuracies = replicate 5 0, max_running_mean = 0,
           epoch_loss = 0, running_loss = 0, events = []\<rparr>"
  define P :: "('m, 'o) train_state \<Rightarrow> bool" where
    "P = (\<lambda>t. window_invariant t
              \<and> schedule T train_loader test_loader model0 (global_step t) (model t) (events t))"
  have "train T a model0 optim0 train_loader test_loader baseline_acc (fst world, snd world)
        = Inr (perf, s, fs')"
    using assms by simp
  from train_unfold[OF this] have loop:
    "for_each (train_epoch T (CrossEntropyLoss Mean) train_loader test_loader)
       [0 ..< nat (num_epochs a)] s0 = Inr s"
    and perf: "perf = max_running_mean s"
    by (simp_all add: s0_def)
  have "window_invariant s0"
    by (simp add: window_invariant_def s0_def eval_accs_def eval_maxes_def window_def
        window_means_def)
  moreover have "schedule T train_loader test_loader model0 (global_step s0) (model s0) (events s0)"
    by (simp add: s0_def schedule.start)
  ultimately have start: "P s0" by (simp add: P_def)
  have "P s"
  proof (rule for_each_invariant[OF loop, where P = P])
    show "P s0" by (rule start)
  next
    fix x t t'
    assume "P t"
      and "train_epoch T (CrossEntropyLoss Mean) train_loader test_loader x t = Inr t'"
    then show "P t'"
      unfolding P_def by (rule train_epoch_invariants[rotated])
  qed
  then show ?thesis using perf by (simp add: P_def)
qed

lemma train_count:
  assumes "train T a model0 optim0 train_loader test_loader baseline_acc world = Inr (perf, s, fs')"
    and "\<forall>k n. length (randperm T k n) = n"
  shows "global_step s = nat (num_epochs a) * len_DataLoader train_loader"
proof -
  have "train T a model0 optim0 train_loader test_loader baseline_acc (fst world, snd world)
        = Inr (perf, s, fs')"
    using assms by simp
  from train_unfold[OF this] have loop:
    "for_each (train_epoch T (CrossEntropyLoss Mean) train_loader test_loader)
       [0 ..< nat (num_epochs a)]
       \<lparr>model = model0, optim = optim0, rng = snd world, global_step = 0,
        accuracies = replicate 5 0, max_running_mean = 0,
        epoch_loss = 0, running_loss = 0, events = []\<rparr> = Inr s"
    by simp
  have "global_step s = 0 + len_DataLoader train_loader * length [0 ..< nat (num_epochs a)]"
    using for_each_add[OF loop, where f = global_step and c = "len_DataLoader train_loader"]
      train_epoch_count[OF _ assms(2)]
    by fastforce
  then show ?thesis by simp
qed

lemma schedule_steps:
  "schedule T train_loader test_loader model0 g m es \<Longrightarrow>
   map fst (train_steps es) = [0..<g] \<and> eval_steps es = filter (\<lambda>k. k mod 5 = 0) [1..<Suc g]"
  by (induction rule: schedule.induct)
     (simp_all add: train_steps_append eval_steps_def evaluations_append)

lemma schedule_evaluations:
  "schedule T train_loader test_loader model0 g m es \<Longrightarrow>
   \<forall>(k, acc, mx) \<in> set (evaluations es).
     \<exists>loader j m'. test_loader = Some loader \<and> accuracy_on T loader j (model_eval T m') acc"
  by (induction rule: schedule.induct) (auto simp: evaluations_append)

lemma schedule_mode:
  "schedule T train_loader test_loader model0 g m es \<Longrightarrow>
   es \<noteq> [] \<and> last es = Model_train \<longrightarrow> (\<exists>m'. m = model_train T m')"
  by (induction rule: schedule.induct) auto

lemma schedule_losses:
  assumes "schedule T train_loader test_loader model0 g m es"
    and "P model0"
    and "\<And>l opt m xs ys. P m \<Longrightarrow> P (snd (backward_step T l opt m xs ys))"
    and "\<And>m. P m \<Longrightarrow> P (model_train T m)"
    and "\<And>m. P m \<Longrightarrow> P (model_eval T m)"
  shows "P m \<and> (\<forall>(k, l) \<in> set (train_steps es).
            \<exists>j batches batch logits m'.
              P m' \<and> iter_DataLoader (randperm T) j train_loader = Inr batches
              \<and> batch \<in> set batches \<and> call T m' (sequence batch) = Inr logits
              \<and> apply_loss T (CrossEntropyLoss Mean) logits (label batch) = Inr l)"
  using assms(1)
proof (induction rule: schedule.induct)
  case start
  then show ?case using assms(2) by simp
next
  case (epoch g m es)
  then show ?case using assms(4) by (simp add: train_steps_append)
next
  case (step g m es j batches batch logits l m' opt)
  have "P m'" unfolding step(7) using step.IH assms(3) by blast
  moreover have "\<exists>j batches batch logits m'.
              P m' \<and> iter_DataLoader (randperm T) j train_loader = Inr batches
              \<and> batch \<in> set batches \<and> call T m' (sequence batch) = Inr logits
              \<and> apply_loss T (CrossEntropyLoss Mean) logits (label batch) = Inr l"
    using step.IH step(3,4,5,6) by blast
  ultimately show ?case using step.IH by (simp add: train_steps_append)
next
  case (step_eval g m es j batches batch logits l m' opt loader k acc mx)
  have "P m'" unfolding step_eval(7) using step_eval.IH assms(3) by blast
  then have "P (model_train T (model_eval T m'))" using assms(4,5) by blast
  moreover have "\<exists>j batches batch logits m'.
              P m' \<and> iter_DataLoader (randperm T) j train_loader = Inr batches
              \<and> batch \<in> set batches \<and> call T m' (sequence batch) = Inr logits
              \<and> apply_loss T (CrossEntropyLoss Mean) logits (label batch) = Inr l"
    using step_eval.IH step_eval(3,4,5,6) by blast
  ultimately show ?case using step_eval.IH by (simp add: train_steps_append)
qed

subsection \<open>The example run\<close>

lemma example_run:
  "train example_torch example_args (0, False) () example_loader (Some example_test_loader)
     (Finite (1 / 2)) (example_fs, 0)
   = Inr (1 / 4,
          \<lparr>model = (10, True), optim = (), rng = 4, global_step = 10,
           accuracies = [0, 0, 0, 1 / 2, 3 / 4], max_running_mean = 1 / 4,
           epoch_loss = 5, running_loss = 1,
           events = [Model_train, Train_step 0 1, Train_step 1 1, Train_step 2 1, Train_step 3 1,
                     Train_step 4 1, Model_eval, Evaluation 5 (1 / 2) (1 / 10), Model_train,
                     Model_train, Train_step 5 1, Train_step 6 1, Train_step 7 1, Train_step 8 1,
                     Train_step 9 1, Model_eval, Evaluation 10 (3 / 4) (1 / 4), Model_train]\<rparr>,
          \<lparr>fs_root = Dir [(''work'', Dir [(''logs'', Dir [(''LSTM_default'',
                         Dir [(''train'', Dir [(''events.out.tfevents'', File)])])]),
                       (''checkpoints'', Dir [(''LSTM_default'', Dir [])])])],
           fs_cwd = [''work'']\<rparr>)"
  by code_simp

subsection \<open>The rolling mean and the schedule of the evaluations\<close>



text \<open>
  Claim C4. In a run of \<^verbatim>\<open>train\<close> that returns, the optimisation steps are numbered
  \<open>0, 1, 2, \<dots>\<close> by the step counter through all the epochs, each on a batch of the training
  loader, and the evaluations are made exactly at the values of the counter, after its
  increment, that are multiples of 5: at 5, 10, 15 and so on up to the final value of the
  counter. Each evaluation stands right after the optimisation step that brought the
  counter to that value; no other step is followed by one. It is made on the loader given
  as \<^verbatim>\<open>test_loader\<close>, with the model that this step left, put in evaluation mode by
  \<^verbatim>\<open>model.eval()\<close>: the accuracy it records is the accuracy of that model on that loader.
  After it \<^verbatim>\<open>model.train()\<close> puts the model back in training mode, and this is the model
  that the next step, or the end of the run, finds.
\<close>

theorem train_evaluation_schedule:
  assumes "train T a model0 optim0 train_loader test_loader baseline_acc world
           = Inr (perf, s, fs')"
  shows "schedule T train_loader test_loader model0 (global_step s) (model s) (events s)
       \<and> map fst (train_steps (events s)) = [0..<global_step s]
       \<and> eval_steps (events s) = filter (\<lambda>k. k mod 5 = 0) [1..<Suc (global_step s)]
       \<and> (\<forall>(k, acc, mx) \<in> set (evaluations (events s)).
            \<exists>loader j m. test_loader = Some loader
                       \<and> accuracy_on T loader j (model_eval T m) acc)
       \<and> (events s \<noteq> [] \<and> last (events s) = Model_train \<longrightarrow> (\<exists>m. model s = model_train T m))"
proof -
  have sch: "schedule T train_loader test_loader model0 (global_step s) (model s) (events s)"
    using train_invariants[OF assms] by simp
  show ?thesis
    using sch schedule_steps[OF sch] schedule_evaluations[OF sch] schedule_mode[OF sch]
    by blast
qed

theorem train_evaluation_schedule_witness:
  "train example_torch example_args (0, False) () example_loader (Some example_test_loader)
     (Finite (1 / 2)) (example_fs, 0)
     = Inr (1 / 4,
          \<lparr>model = (10, True), optim = (), rng = 4, global_step = 10,
           accuracies = [0, 0, 0, 1 / 2, 3 / 4], max_running_mean = 1 / 4,
           epoch_loss = 5, running_loss = 1,
           events = [Model_train, Train_step 0 1, Train_step 1 1, Train_step 2 1, Train_step 3 1,
          Train_step 4 1, Model_eval, Evaluation 5 (1 / 2) (1 / 10), Model_train,
          Model_train, Train_step 5 1, Train_step 6 1, Train_step 7 1, Train_step 8 1,
          Train_step 9 1, Model_eval, Evaluation 10 (3 / 4) (1 / 4), Model_train]\<rparr>,
          \<lparr>fs_root = Dir [(''work'', Dir [(''logs'', Dir [(''LSTM_default'',
                         Dir [(''train'', Dir [(''events.out.tfevents'', File)])])]),
                       (''checkpoints'', Dir [(''LSTM_default'', Dir [])])])],
           fs_cwd = [''work'']\<rparr>)
   \<and> schedule example_torch example_loader (Some example_test_loader) (0, False) 10 (10, True)
         [Model_train, Train_step 0 1, Train_step 1 1, Train_step 2 1, Train_step 3 1,
          Train_step 4 1, Model_eval, Evaluation 5 (1 / 2) (1 / 10), Model_train,
          Model_train, Train_step 5 1, Train_step 6 1, Train_step 7 1, Train_step 8 1,
          Train_step 9 1, Model_eval, Evaluation 10 (3 / 4) (1 / 4), Model_train]
   \<and> eval_steps
         [Model_train, Train_step 0 1, Train_step 1 1, Train_step 2 1, Train_step 3 1,
          Train_step 4 1, Model_eval, Evaluation 5 (1 / 2) (1 / 10), Model_train,
          Model_train, Train_step 5 1, Train_step 6 1, Train_step 7 1, Train_step 8 1,
          Train_step 9 1, Model_eval, Evaluation 10 (3 / 4) (1 / 4), Model_train]
       = [5, 10]
   \<and> accuracy_on example_torch example_test_loader 1 (5, False) (1 / 2)
   \<and> accuracy_on example_torch example_test_loader 3 (10, False) (3 / 4)
   \<and> \<not> accuracy_on example_torch example_loader 3 (10, False) (3 / 4)
   \<and> model_train example_torch (model_eval example_torch (10, True)) = (10, True)
   \<and> model_eval example_torch (10, True) \<noteq> (10, True)"
proof -
  note inst = train_evaluation_schedule[OF example_run]
  have f: "filter (\<lambda>k. k mod 5 = 0) [1..<Suc 10] = [5, 10]" by code_simp
  have a1: "accuracy_on example_torch example_test_loader 1 (5, False) (1 / 2)" by code_simp
  have a2: "accuracy_on example_torch example_test_loader 3 (10, False) (3 / 4)" by code_simp
  have a3: "\<not> accuracy_on example_torch example_loader 3 (10, False) (3 / 4)" by code_simp
  have m: "model_train example_torch (model_eval example_torch (10, True)) = (10, True)"
    "model_eval example_torch (10, True) \<noteq> (10, True)"
    by (simp_all add: example_torch_def)
  show ?thesis using inst example_run f a1 a2 a3 m by simp
qed

end
